theory Spec2Isabelle
  imports Complex_Main "HOL-Library.AList"
begin

section \<open>The sync engine of stringplay-core (services/sync.ts)\<close>

text \<open>
  A shallow embedding of \<^verbatim>\<open>SyncTroupe\<close>: the orchestrator \<^verbatim>\<open>sync\<close>, the folder and
  event discovery \<^verbatim>\<open>discoverEvents\<close> with \<^verbatim>\<open>performEventTypeTieBreaker\<close>, the audience
  pass \<^verbatim>\<open>discoverAndRefreshAudience\<close> and the commit \<^verbatim>\<open>persistSync\<close>.

  Conventions of the embedding.
  \<^item> An \<^verbatim>\<open>ObjectId\<close> is a natural number; \<^verbatim>\<open>toHexString\<close> is injective, so the hex string
    of an id is identified with the id. \<^verbatim>\<open>new ObjectId()\<close> draws from a counter.
  \<^item> A \<^verbatim>\<open>Date\<close> is its number of milliseconds.
  \<^item> A JavaScript object used as a dictionary is an association list in insertion order
    (\<^verbatim>\<open>for (k in o)\<close> walks it from the head); assignment to a key is \<^const>\<open>AList.update\<close>.
    JavaScript visits keys that are array indices first; no statement below depends on
    the order of a walk.
  \<^item> A MongoDB collection is the list of its documents.
  \<^item> The clock is read as one instant \<open>now\<close> during a run.
  \<^item> A \<^verbatim>\<open>throw\<close> is a value \<open>Inl e\<close>; a loop that need not end yields \<open>None\<close>.
  \<^item> Object references that the code compares or mutates through aliases (the discovery
    event types) are indices into an arena list.
\<close>

subsection \<open>Values\<close>

type_synonym oid = nat
type_synonym date = int

datatype error =
    AssertionError string
  | TypeError string
  | ExternalError string

text \<open>
  JavaScript numbers as far as the dashboard needs them: \<^verbatim>\<open>undefined\<close>, \<^verbatim>\<open>NaN\<close>, the two
  infinities and the finite numbers. Counts stay far below \<open>2^53\<close>, where the arithmetic
  of doubles on integers is exact; a quotient of two counts is kept as the exact rational.
\<close>

datatype jsnum = Undefined | NaN | PosInf | NegInf | Num rat

text \<open>\<^verbatim>\<open>x += 1\<close>\<close>

fun js_inc :: "jsnum \<Rightarrow> jsnum" where
  "js_inc (Num a) = Num (a + 1)"
| "js_inc PosInf = PosInf"
| "js_inc NegInf = NegInf"
| "js_inc NaN = NaN"
| "js_inc Undefined = NaN"

text \<open>\<^verbatim>\<open>x > 0\<close>\<close>

fun js_gt0 :: "jsnum \<Rightarrow> bool" where
  "js_gt0 (Num a) = (0 < a)"
| "js_gt0 PosInf = True"
| "js_gt0 NegInf = False"
| "js_gt0 NaN = False"
| "js_gt0 Undefined = False"

text \<open>\<^verbatim>\<open>x / y\<close>: a finite number divided by zero is an infinity or \<^verbatim>\<open>NaN\<close>, never an exception.\<close>

fun js_div :: "jsnum \<Rightarrow> jsnum \<Rightarrow> jsnum" where
  "js_div (Num a) (Num b) =
     (if b = 0 then (if a = 0 then NaN else if 0 < a then PosInf else NegInf)
      else Num (a / b))"
| "js_div (Num a) PosInf = Num 0"
| "js_div (Num a) NegInf = Num 0"
| "js_div PosInf (Num b) = (if 0 \<le> b then PosInf else NegInf)"
| "js_div NegInf (Num b) = (if 0 \<le> b then NegInf else PosInf)"
| "js_div _ _ = NaN"

text \<open>\<^verbatim>\<open>Math.round\<close>: the nearest integer, a tie going up.\<close>

fun js_round :: "jsnum \<Rightarrow> jsnum" where
  "js_round (Num a) = Num (of_int \<lfloor>a + 1 / 2\<rfloor>)"
| "js_round PosInf = PosInf"
| "js_round NegInf = NegInf"
| "js_round NaN = NaN"
| "js_round Undefined = NaN"

text \<open>A loop body that may throw, run over a list: the first \<open>Inl\<close> ends the loop.\<close>

fun foldE :: "('s \<Rightarrow> 'a \<Rightarrow> error + 's) \<Rightarrow> 'a list \<Rightarrow> 's \<Rightarrow> error + 's" where
  "foldE f [] s = Inr s"
| "foldE f (x # xs) s = (case f s x of Inl e \<Rightarrow> Inl e | Inr s' \<Rightarrow> foldE f xs s')"

subsection \<open>Documents\<close>

record event_type =
  et_id :: oid
  et_title :: string
  et_value :: int
  sourceFolderUris :: "string list"

text \<open>\<^verbatim>\<open>DiscoveryEventType\<close>: \<^verbatim>\<open>{ ...eventType, totalFiles: 0 }\<close>.\<close>

record discovery_event_type =
  det_id :: oid
  det_title :: string
  det_value :: int
  det_sourceFolderUris :: "string list"
  totalFiles :: int

definition toDiscovery :: "event_type \<Rightarrow> discovery_event_type" where
  "toDiscovery et =
     \<lparr>det_id = et_id et, det_title = et_title et, det_value = et_value et,
      det_sourceFolderUris = sourceFolderUris et, totalFiles = 0\<rparr>"

record troupe =
  t_id :: oid
  syncLock :: bool
  eventTypes :: "event_type list"
  memberPropertyTypes :: "(string \<times> string) list"
  pointTypes :: "(string \<times> date \<times> date) list"
  logSheetUri :: string

record event =
  ev_id :: oid
  ev_troupeId :: oid
  ev_lastUpdated :: date
  ev_title :: string
  ev_source :: string
  synchronizedSource :: string
  sourceUri :: string
  synchronizedSourceUri :: string
  startDate :: date
  eventTypeId :: "oid option"
  eventTypeTitle :: "string option"
  ev_value :: int
  fieldToPropertyMap :: "(string \<times> string \<times> string option) list"
  synchronizedFieldToPropertyMap :: "(string \<times> string \<times> string option) list"

datatype pval = PStr string | PNum int | PBool bool | PDate date | PNull

record property =
  p_value :: "pval option"
  p_override :: bool

record member =
  m_id :: oid
  m_troupeId :: oid
  m_lastUpdated :: date
  properties :: "(string \<times> property) list"
  points :: "(string \<times> int) list"

text \<open>One attendance record of a member's pending list, and its entry in a bucket.\<close>

record attended =
  a_eventId :: oid
  a_typeId :: "oid option"
  a_value :: int
  a_startDate :: date

record bucket_entry =
  be_typeId :: "oid option"
  be_value :: int
  be_startDate :: date

record bucket =
  b_id :: oid
  b_troupeId :: oid
  b_memberId :: oid
  page :: nat
  b_events :: "(oid \<times> bucket_entry) list"

record stat =
  s_title :: string
  s_value :: jsnum

record pstat =
  ps_title :: string
  ps_value :: jsnum
  ps_percent :: jsnum

record birthday_entry =
  bd_id :: oid
  bd_firstName :: "pval option"
  bd_lastName :: "pval option"
  bd_birthday :: "pval option"

record upcoming_birthdays =
  frequency :: string
  desiredFrequency :: string
  bd_members :: "birthday_entry list"

text \<open>
  The dashboard's fields are those \<^verbatim>\<open>persistSync\<close> writes with \<^verbatim>\<open>$set\<close>;
  \<^verbatim>\<open>totalAttendees\<close> is \<open>Undefined\<close> while the object has no such property.
\<close>

record dashboard_update =
  d_lastUpdated :: date
  upcomingBirthdays :: upcoming_birthdays
  totalMembers :: int
  totalEvents :: int
  totalEventTypes :: int
  totalAttendees :: jsnum
  totalAttendeesByEventType :: "(oid \<times> stat) list"
  totalEventsByEventType :: "(oid \<times> stat) list"
  avgAttendeesPerEvent :: jsnum
  avgAttendeesByEventType :: "(oid \<times> stat) list"
  attendeePercentageByEventType :: "(oid \<times> pstat) list"
  eventPercentageByEventType :: "(oid \<times> pstat) list"

record dashboard =
  d_id :: oid
  d_troupeId :: oid
  d_fields :: dashboard_update

record limits =
  eventsLeft :: int
  sourceFolderUrisLeft :: int
  membersLeft :: int

record db =
  troupeColl :: "troupe list"
  dashboardColl :: "dashboard list"
  eventColl :: "event list"
  audienceColl :: "member list"
  eventsAttendedColl :: "bucket list"
  limitsColl :: "(oid \<times> limits) list"

subsection \<open>The state of one \<^verbatim>\<open>SyncTroupe\<close>\<close>

record event_data =
  ed_event :: event
  ed_fromColl :: bool

record member_data =
  md_member :: member
  eventsAttended :: "attended list"
  eventsAttendedDocs :: "bucket list"
  md_delete :: bool
  md_fromColl :: bool

record sync_state =
  s_troupe :: "troupe option"
  s_dashboard :: "dashboard option"
  currentLimits :: limits
  eventMap :: "(string \<times> event_data) list"
  attendeeMap :: "(string \<times> member_data) list"
  incrementLimits :: limits
  nextOid :: oid

record drive_file =
  f_id :: string
  f_name :: string
  f_mimeType :: string

record attendee =
  at_member :: member
  at_eventsAttended :: "(oid \<times> bucket_entry) list"

text \<open>
  What the engine is handed from outside \<^verbatim>\<open>sync.ts\<close>: the clock, the constants and helpers
  of \<^verbatim>\<open>util/constants\<close> and \<^verbatim>\<open>util/helper\<close>, the Drive listing, the two audience
  delegates and the log publisher. Each external call either returns or throws.
  \<^item> \<open>dataSourceOfMime m\<close> is \<^verbatim>\<open>EVENT_DATA_SOURCES[EVENT_DATA_SOURCE_MIME_TYPES.indexOf(m)]\<close>,
    \<open>None\<close> when \<^verbatim>\<open>indexOf\<close> gives \<open>-1\<close>.
  \<^item> \<open>getDataSourceId kind uri\<close> and \<open>getDataSourceUrl source id\<close> are the helpers of
    that name; a result \<^verbatim>\<open>undefined\<close> is read as the property key it is converted to.
  \<^item> \<open>files_list f\<close> is \<^verbatim>\<open>drive.files.list\<close> for the children of folder \<open>f\<close>: a throw,
    or \<^verbatim>\<open>response.data.files\<close> (which may be undefined).
  \<^item> \<open>toPropertyKey\<close> is JavaScript's conversion of a value that is not a string to a
    property key.
  \<^item> \<open>stringToNumber\<close> is JavaScript's \<^verbatim>\<open>ToNumber\<close> on a string, \<open>None\<close> for \<^verbatim>\<open>NaN\<close>.
\<close>

record env =
  now :: date
  FULL_DAY :: int
  DRIVE_FOLDER_MIME :: string
  dataSourceOfMime :: "string \<Rightarrow> string option"
  getDataSourceId :: "string \<Rightarrow> string \<Rightarrow> string"
  getDataSourceUrl :: "string \<Rightarrow> string \<Rightarrow> string"
  files_list :: "string \<Rightarrow> error + drive_file list option"
  gformsDiscoverAudience :: "sync_state \<Rightarrow> event \<Rightarrow> date \<Rightarrow> error + sync_state"
  gsheetsDiscoverAudience :: "sync_state \<Rightarrow> event \<Rightarrow> date \<Rightarrow> error + sync_state"
  updateLog :: "string \<Rightarrow> troupe \<Rightarrow> event list \<Rightarrow> attendee list \<Rightarrow> error option"
  toPropertyKey :: "pval option \<Rightarrow> string"
  stringToNumber :: "string \<Rightarrow> int option"

definition MAX_PAGE_SIZE :: nat where
  "MAX_PAGE_SIZE = 30"

subsection \<open>Folder ownership and the tie-breaker\<close>

text \<open>
  The locals of \<^verbatim>\<open>discoverEvents\<close>. \<open>dets\<close> is the arena of discovery event types, one per
  event type of the troupe in order; \<open>folderToEventTypeMap\<close> maps a folder id to the index
  of its owner; \<open>foldersToExplore\<close> is the stack (\<^verbatim>\<open>push\<close> appends, \<^verbatim>\<open>pop\<close> takes the last).
\<close>

record disc =
  dets :: "discovery_event_type list"
  folderToEventTypeMap :: "(string \<times> nat) list"
  foldersToExplore :: "string list"
  discoveredFolders :: "string list"

text \<open>
  \<^verbatim>\<open>performEventTypeTieBreaker(map, folderId, currentEventType)\<close>. The challenger is
  \<open>None\<close> when the caller passes \<^verbatim>\<open>undefined\<close>; reading \<^verbatim>\<open>totalFiles\<close> of it throws.
\<close>

definition performEventTypeTieBreaker ::
  "discovery_event_type list \<Rightarrow> (string \<times> nat) list \<Rightarrow> string \<Rightarrow> nat option \<Rightarrow> error + nat option" where
  "performEventTypeTieBreaker ds m folderId currentEventType =
     (case map_of m folderId of
        None \<Rightarrow> Inr currentEventType
      | Some existingEventType \<Rightarrow>
          (case currentEventType of
             None \<Rightarrow> Inl (TypeError ''Cannot read properties of undefined (reading totalFiles)'')
           | Some current \<Rightarrow>
               if totalFiles (ds ! existingEventType) < totalFiles (ds ! current)
               then Inr (Some existingEventType)
               else Inr (Some current)))"

definition addTotalFiles :: "int \<Rightarrow> nat \<Rightarrow> discovery_event_type list \<Rightarrow> discovery_event_type list" where
  "addTotalFiles k i ds = ds[i := (ds ! i)\<lparr>totalFiles := totalFiles (ds ! i) + k\<rparr>]"

text \<open>The body of the seeding loop (lines 139-155) for event type number \<open>i\<close> and one of its folders.\<close>

definition seedFolder :: "env \<Rightarrow> nat \<Rightarrow> disc \<Rightarrow> string \<Rightarrow> error + disc" where
  "seedFolder env i d folder =
     (let folderId = getDataSourceId env ''Google Drive Folder'' folder in
      case performEventTypeTieBreaker (dets d) (folderToEventTypeMap d) folderId (Some i) of
        Inl e \<Rightarrow> Inl e
      | Inr winningEventType \<Rightarrow>
          if winningEventType = map_of (folderToEventTypeMap d) folderId then Inr d
          else
            (case winningEventType of
               None \<Rightarrow> Inl (TypeError ''Cannot read properties of undefined (reading totalFiles)'')
             | Some w \<Rightarrow>
                 let ds1 = (case map_of (folderToEventTypeMap d) folderId of
                              Some previous \<Rightarrow> addTotalFiles (- 1) previous (dets d)
                            | None \<Rightarrow> dets d)
                 in Inr (d\<lparr>dets := addTotalFiles 1 w ds1,
                           folderToEventTypeMap := AList.update folderId w (folderToEventTypeMap d),
                           foldersToExplore := foldersToExplore d @ [folderId]\<rparr>)))"

text \<open>The two seeding loops (lines 136-156) over the event types and their folders.\<close>

definition seedEventType :: "env \<Rightarrow> disc \<Rightarrow> nat \<times> event_type \<Rightarrow> error + disc" where
  "seedEventType env d ie = foldE (seedFolder env (fst ie)) (sourceFolderUris (snd ie)) d"

definition seedFolders :: "env \<Rightarrow> event_type list \<Rightarrow> error + disc" where
  "seedFolders env ets =
     foldE (seedEventType env) (enumerate 0 ets)
       \<lparr>dets = map toDiscovery ets, folderToEventTypeMap = [], foldersToExplore = [],
        discoveredFolders = []\<rparr>"

text \<open>
  The transfer to the winner (lines 151-153 and 218-220): its count goes up, it owns the
  folder, the folder is pushed.
\<close>

definition transferFolder :: "string \<Rightarrow> nat option \<Rightarrow> disc \<Rightarrow> error + disc" where
  "transferFolder folderId winningEventType d =
     (case winningEventType of
        None \<Rightarrow> Inl (TypeError ''Cannot read properties of undefined (reading totalFiles)'')
      | Some w \<Rightarrow>
          Inr (d\<lparr>dets := addTotalFiles 1 w (dets d),
                  folderToEventTypeMap := AList.update folderId w (folderToEventTypeMap d),
                  foldersToExplore := foldersToExplore d @ [folderId]\<rparr>))"

text \<open>
  Lines 247-262. The listing asks for \<^verbatim>\<open>id\<close>, \<^verbatim>\<open>name\<close> and \<^verbatim>\<open>mimeType\<close> only, so
  \<^verbatim>\<open>file.createdTime\<close> is absent and the start date is the current time.
\<close>

definition newEvent :: "env \<Rightarrow> oid \<Rightarrow> oid \<Rightarrow> drive_file \<Rightarrow> string \<Rightarrow> string \<Rightarrow> discovery_event_type \<Rightarrow> event" where
  "newEvent env newId troupeId file source uri currentEventType =
     \<lparr>ev_id = newId, ev_troupeId = troupeId, ev_lastUpdated = now env, ev_title = f_name file,
      ev_source = source, synchronizedSource = source, sourceUri = uri,
      synchronizedSourceUri = uri, startDate = now env,
      eventTypeId = Some (det_id currentEventType),
      eventTypeTitle = Some (det_title currentEventType),
      ev_value = det_value currentEventType,
      fieldToPropertyMap = [], synchronizedFieldToPropertyMap = []\<rparr>"

text \<open>
  The body of the loop over the files of the folder \<open>folderId\<close> (lines 193-266);
  \<open>currentDiscoveryEventType\<close> is the owner of the folder as read at line 192. The folder
  branch hands \<open>folderId\<close> to the tie-breaker, as line 201 does.
\<close>

definition processFile ::
  "env \<Rightarrow> oid \<Rightarrow> string \<Rightarrow> nat option \<Rightarrow> disc \<times> sync_state \<Rightarrow> drive_file \<Rightarrow> error + disc \<times> sync_state" where
  "processFile env troupeId folderId currentDiscoveryEventType dst file =
     (let d = fst dst; st = snd dst in
      if f_mimeType file = DRIVE_FOLDER_MIME env then
        (case performEventTypeTieBreaker (dets d) (folderToEventTypeMap d) folderId
                currentDiscoveryEventType of
           Inl e \<Rightarrow> Inl e
         | Inr winningEventType \<Rightarrow>
             if winningEventType = map_of (folderToEventTypeMap d) folderId then Inr (d, st)
             else
               (case map_of (folderToEventTypeMap d) folderId of
                  Some previous \<Rightarrow>
                    (case transferFolder folderId winningEventType
                            (d\<lparr>dets := addTotalFiles (- 1) previous (dets d)\<rparr>) of
                       Inl e \<Rightarrow> Inl e
                     | Inr d' \<Rightarrow> Inr (d', st))
                | None \<Rightarrow>
                    if sourceFolderUrisLeft (currentLimits st)
                         = sourceFolderUrisLeft (incrementLimits st)
                    then Inr (d, st)
                    else
                      (case transferFolder folderId winningEventType d of
                         Inl e \<Rightarrow> Inl e
                       | Inr d' \<Rightarrow>
                           Inr (d', st\<lparr>incrementLimits := (incrementLimits st)
                                  \<lparr>sourceFolderUrisLeft :=
                                     sourceFolderUrisLeft (incrementLimits st) - 1\<rparr>\<rparr>))))
      else
        (case dataSourceOfMime env (f_mimeType file) of
           None \<Rightarrow> Inr (d, st)
         | Some source \<Rightarrow>
             let uri = getDataSourceUrl env source (f_id file) in
             (case currentDiscoveryEventType of
                None \<Rightarrow> Inl (TypeError ''Cannot destructure undefined'')
              | Some c \<Rightarrow>
                  let currentEventType = dets d ! c in
                  (case map_of (eventMap st) uri of
                     Some eventData \<Rightarrow>
                       if eventTypeId (ed_event eventData) = None then
                         Inr (d, st\<lparr>eventMap := AList.update uri
                                (eventData\<lparr>ed_event := (ed_event eventData)
                                   \<lparr>eventTypeId := Some (det_id currentEventType),
                                    eventTypeTitle := Some (det_title currentEventType),
                                    ev_value := det_value currentEventType\<rparr>\<rparr>)
                                (eventMap st)\<rparr>)
                       else Inr (d, st)
                   | None \<Rightarrow>
                       if eventsLeft (currentLimits st) = eventsLeft (incrementLimits st)
                       then Inr (d, st)
                       else
                         Inr (d, st\<lparr>eventMap := AList.update uri
                                \<lparr>ed_event = newEvent env (nextOid st) troupeId file source uri
                                              currentEventType,
                                 ed_fromColl = False\<rparr> (eventMap st),
                              incrementLimits := (incrementLimits st)
                                \<lparr>eventsLeft := eventsLeft (incrementLimits st) - 1\<rparr>,
                              nextOid := Suc (nextOid st)\<rparr>)))))"

text \<open>
  With the owner of the folder as challenger the folder branch changes nothing, so the
  files of a listing leave the worklist and the ownership map as they are. The loop
  below ends for that reason.
\<close>

lemma processFile_keeps:
  assumes "processFile env troupeId folderId (map_of (folderToEventTypeMap (fst dst)) folderId) dst file = Inr dst'"
  shows "foldersToExplore (fst dst') = foldersToExplore (fst dst)
       \<and> folderToEventTypeMap (fst dst') = folderToEventTypeMap (fst dst)
       \<and> discoveredFolders (fst dst') = discoveredFolders (fst dst)"
  using assms
  by (auto simp: processFile_def performEventTypeTieBreaker_def Let_def
      split: if_splits option.splits sum.splits)

lemma processFiles_keeps:
  assumes "foldE (processFile env troupeId folderId cur) files dst = Inr dst'"
    and "cur = map_of (folderToEventTypeMap (fst dst)) folderId"
  shows "foldersToExplore (fst dst') = foldersToExplore (fst dst)
       \<and> folderToEventTypeMap (fst dst') = folderToEventTypeMap (fst dst)
       \<and> discoveredFolders (fst dst') = discoveredFolders (fst dst)"
  using assms
proof (induction files arbitrary: dst)
  case Nil
  then show ?case by simp
next
  case (Cons f fs)
  from Cons.prems obtain d1 where
    s: "processFile env troupeId folderId cur dst f = Inr d1"
    and r: "foldE (processFile env troupeId folderId cur) fs d1 = Inr dst'"
    by (auto split: sum.splits)
  from s Cons.prems(2) have k: "foldersToExplore (fst d1) = foldersToExplore (fst dst)
       \<and> folderToEventTypeMap (fst d1) = folderToEventTypeMap (fst dst)
       \<and> discoveredFolders (fst d1) = discoveredFolders (fst dst)"
    using processFile_keeps by blast
  with Cons.IH[OF r] Cons.prems(2) show ?case by simp
qed

text \<open>The \<^verbatim>\<open>while\<close> loop of lines 165-267.\<close>

function exploreFolders :: "env \<Rightarrow> oid \<Rightarrow> disc \<times> sync_state \<Rightarrow> error + disc \<times> sync_state" where
  "exploreFolders env troupeId dst =
     (if foldersToExplore (fst dst) = [] then Inr dst
      else
        let folderId = last (foldersToExplore (fst dst));
            d1 = (fst dst)\<lparr>foldersToExplore := butlast (foldersToExplore (fst dst))\<rparr>
        in
        if folderId \<in> set (discoveredFolders d1) then exploreFolders env troupeId (d1, snd dst)
        else
          let d2 = d1\<lparr>discoveredFolders := discoveredFolders d1 @ [folderId]\<rparr> in
          (case files_list env folderId of
             Inl e \<Rightarrow>
               (case map_of (folderToEventTypeMap d2) folderId of
                  None \<Rightarrow> Inl (TypeError ''Cannot read properties of undefined (reading sourceFolderUris)'')
                | Some owner \<Rightarrow>
                    exploreFolders env troupeId
                      (d2\<lparr>dets := (dets d2)[owner := (dets d2 ! owner)
                              \<lparr>det_sourceFolderUris :=
                                 filter (\<lambda>id. id \<noteq> folderId) (det_sourceFolderUris (dets d2 ! owner))\<rparr>],
                          folderToEventTypeMap := AList.delete folderId (folderToEventTypeMap d2),
                          discoveredFolders := butlast (discoveredFolders d2)\<rparr>, snd dst))
           | Inr None \<Rightarrow> exploreFolders env troupeId (d2, snd dst)
           | Inr (Some files) \<Rightarrow>
               (case foldE (processFile env troupeId folderId
                              (map_of (folderToEventTypeMap d2) folderId)) files (d2, snd dst) of
                  Inl e \<Rightarrow> Inl e
                | Inr dst' \<Rightarrow> exploreFolders env troupeId dst')))"
  by pat_completeness auto
termination
proof (relation "measure (\<lambda>(env, troupeId, dst). length (foldersToExplore (fst dst)))", goal_cases)
  case 1
  then show ?case by simp
next
  case (2 env troupeId dst folderId d1)
  then show ?case by simp
next
  case (3 env troupeId dst folderId d1 d2 e owner)
  then show ?case by simp
next
  case (4 env troupeId dst folderId d1 d2 r)
  then show ?case by simp
next
  case (5 env troupeId dst folderId d1 d2 r files dst')
  from processFiles_keeps[OF 5(8)] 5 show ?case by simp
qed

subsection \<open>\<^verbatim>\<open>discoverEvents\<close>\<close>

text \<open>The body of the first loop (lines 118-123): a stored event enters the event map.\<close>

definition loadEvent :: "event \<Rightarrow> (string \<times> event_data) list \<Rightarrow> (string \<times> event_data) list" where
  "loadEvent ev m =
     AList.update (sourceUri ev)
       \<lparr>ed_event = ev\<lparr>synchronizedSource := ev_source ev,
                        synchronizedSourceUri := sourceUri ev,
                        synchronizedFieldToPropertyMap := fieldToPropertyMap ev\<rparr>,
        ed_fromColl = True\<rparr> m"

text \<open>
  \<^verbatim>\<open>discoverEvents\<close> (lines 113-268): the stored events of the troupe enter the event map,
  the declared folders are claimed, the worklist is run.
\<close>

definition discoverEvents :: "env \<Rightarrow> db \<Rightarrow> sync_state \<Rightarrow> error + sync_state" where
  "discoverEvents env database st =
     (case s_troupe st of
        None \<Rightarrow> Inl (AssertionError [])
      | Some tr \<Rightarrow>
          let st1 = st\<lparr>eventMap :=
                      fold loadEvent (filter (\<lambda>ev. ev_troupeId ev = t_id tr) (eventColl database))
                        (eventMap st)\<rparr>
          in
          (case seedFolders env (eventTypes tr) of
             Inl e \<Rightarrow> Inl e
           | Inr d \<Rightarrow>
               (case exploreFolders env (t_id tr) (d, st1) of
                  Inl e \<Rightarrow> Inl e
                | Inr dst \<Rightarrow> Inr (snd dst))))"

subsection \<open>\<^verbatim>\<open>discoverAndRefreshAudience\<close>\<close>

text \<open>JavaScript truthiness of a property value (\<open>None\<close> is \<^verbatim>\<open>undefined\<close>).\<close>

fun truthy :: "pval option \<Rightarrow> bool" where
  "truthy None = False"
| "truthy (Some PNull) = False"
| "truthy (Some (PStr s)) = (s \<noteq> [])"
| "truthy (Some (PNum n)) = (n \<noteq> 0)"
| "truthy (Some (PBool b)) = b"
| "truthy (Some (PDate d)) = True"

text \<open>
  The key of a member in the attendee map, \<^verbatim>\<open>member.properties["Member ID"].value\<close>: a
  string by the member schema.
\<close>

definition memberIdKey :: "env \<Rightarrow> pval option \<Rightarrow> string" where
  "memberIdKey env v = (case v of Some (PStr s) \<Rightarrow> s | _ \<Rightarrow> toPropertyKey env v)"

text \<open>Lines 308-311: every point type of the troupe is set to zero in the member's points.\<close>

definition resetPoints :: "troupe \<Rightarrow> (string \<times> int) list \<Rightarrow> (string \<times> int) list" where
  "resetPoints tr pts = fold (\<lambda>pointType ps. AList.update pointType 0 ps) (map fst (pointTypes tr)) pts"

text \<open>Lines 313-325: the member's properties are rebuilt over the troupe's property types.\<close>

definition baseProp :: "(string \<times> property) list \<Rightarrow> string \<Rightarrow> property" where
  "baseProp props prop =
     (case map_of props prop of
        Some p \<Rightarrow> if p_override p then p else \<lparr>p_value = p_value p, p_override = False\<rparr>
      | None \<Rightarrow> \<lparr>p_value = None, p_override = False\<rparr>)"

definition resetProperties :: "troupe \<Rightarrow> (string \<times> property) list \<Rightarrow> (string \<times> property) list" where
  "resetProperties tr props =
     fold (\<lambda>prop baseProps. AList.update prop (baseProp props prop) baseProps)
       (map fst (memberPropertyTypes tr)) []"

text \<open>The body of the initialisation loop (lines 294-327) for one stored member.\<close>

definition initMember :: "env \<Rightarrow> db \<Rightarrow> troupe \<Rightarrow> date \<Rightarrow> sync_state \<Rightarrow> member \<Rightarrow> error + sync_state" where
  "initMember env database tr lastUpdated st m =
     (let docs = sort_key page (filter (\<lambda>b. b_memberId b = m_id m) (eventsAttendedColl database)) in
      case map_of (properties m) ''Member ID'' of
        None \<Rightarrow> Inl (TypeError ''Cannot read properties of undefined (reading value)'')
      | Some mid \<Rightarrow>
          Inr (st\<lparr>attendeeMap :=
                 AList.update (memberIdKey env (p_value mid))
                   \<lparr>md_member = m\<lparr>points := resetPoints tr (points m),
                                    properties := resetProperties tr (properties m),
                                    m_lastUpdated := lastUpdated\<rparr>,
                    eventsAttended = [], eventsAttendedDocs = docs,
                    md_delete = False, md_fromColl = True\<rparr>
                   (attendeeMap st)\<rparr>))"

text \<open>
  \<^verbatim>\<open>discoverAudience\<close> (lines 364-382): the delegate is chosen by the event's source kind.
  The delegates are launched together and awaited with \<^verbatim>\<open>Promise.all\<close>; here they run one
  after the other in the order of the event map.
\<close>

definition discoverAudience :: "env \<Rightarrow> date \<Rightarrow> sync_state \<Rightarrow> event \<Rightarrow> error + sync_state" where
  "discoverAudience env lastUpdated st ev =
     (if s_troupe st = None then Inl (AssertionError [])
      else if ev_source ev = ''Google Forms'' then gformsDiscoverAudience env st ev lastUpdated
      else if ev_source ev = ''Google Sheets'' then gsheetsDiscoverAudience env st ev lastUpdated
      else Inr st)"

text \<open>Lines 338-343: the property types ending in \<open>!\<close> are the required ones.\<close>

definition endsWithBang :: "string \<Rightarrow> bool" where
  "endsWithBang s = (s \<noteq> [] \<and> last s = CHR ''!'')"

definition requiredProperties :: "troupe \<Rightarrow> string list" where
  "requiredProperties tr = map fst (filter (\<lambda>pt. endsWithBang (snd pt)) (memberPropertyTypes tr))"

text \<open>Lines 348-353: the inner loop over the required properties, left at the first miss.\<close>

fun markMember :: "string list \<Rightarrow> member_data \<Rightarrow> error + member_data" where
  "markMember [] md = Inr md"
| "markMember (prop # props) md =
     (case map_of (properties (md_member md)) prop of
        None \<Rightarrow> Inl (TypeError ''Cannot read properties of undefined (reading value)'')
      | Some p \<Rightarrow>
          if \<not> truthy (p_value p) then Inr (md\<lparr>md_delete := True\<rparr>)
          else markMember props md)"

text \<open>The body of the loop over the attendee map (lines 346-354).\<close>

definition markEntry ::
  "string list \<Rightarrow> (string \<times> member_data) list \<Rightarrow> string \<times> member_data \<Rightarrow> error + (string \<times> member_data) list" where
  "markEntry required acc kv =
     (case markMember required (snd kv) of
        Inl e \<Rightarrow> Inl e
      | Inr md \<Rightarrow> Inr (acc @ [(fst kv, md)]))"

text \<open>
  \<^verbatim>\<open>discoverAndRefreshAudience\<close> (lines 288-355): the stored members are initialised, the
  delegates run over the events, the members lacking a required value are flagged.
\<close>

definition discoverAndRefreshAudience :: "env \<Rightarrow> db \<Rightarrow> sync_state \<Rightarrow> error + sync_state" where
  "discoverAndRefreshAudience env database st =
     (case s_troupe st of
        None \<Rightarrow> Inl (AssertionError [])
      | Some tr \<Rightarrow>
          let lastUpdated = now env in
          (case foldE (initMember env database tr lastUpdated)
                  (filter (\<lambda>m. m_troupeId m = t_id tr) (audienceColl database)) st of
             Inl e \<Rightarrow> Inl e
           | Inr st1 \<Rightarrow>
               (case foldE (discoverAudience env lastUpdated)
                       (map (\<lambda>kv. ed_event (snd kv)) (eventMap st1)) st1 of
                  Inl e \<Rightarrow> Inl e
                | Inr st2 \<Rightarrow>
                    (case s_troupe st2 of
                       None \<Rightarrow> Inl (TypeError ''Cannot read properties of null (reading memberPropertyTypes)'')
                     | Some tr2 \<Rightarrow>
                         (case foldE (markEntry (requiredProperties tr2)) (attendeeMap st2) [] of
                            Inl e \<Rightarrow> Inl e
                          | Inr marked \<Rightarrow> Inr (st2\<lparr>attendeeMap := marked\<rparr>))))))"

subsection \<open>\<^verbatim>\<open>persistSync\<close>: what is computed before the transaction\<close>

text \<open>A loop body that may throw or not return, run over a list.\<close>

fun foldP :: "('s \<Rightarrow> 'a \<Rightarrow> (error + 's) option) \<Rightarrow> 'a list \<Rightarrow> 's \<Rightarrow> (error + 's) option" where
  "foldP f [] s = Some (Inr s)"
| "foldP f (x # xs) s =
     (case f s x of
        None \<Rightarrow> None
      | Some (Inl e) \<Rightarrow> Some (Inl e)
      | Some (Inr s') \<Rightarrow> foldP f xs s')"

record persist_acc =
  dashboardUpdate :: dashboard_update
  updateEvents :: "event list"
  updateAudience :: "member list"
  membersToDelete :: "oid list"
  updateEventsAttended :: "bucket list"
  eventsAttendedToDelete :: "oid list"
  pa_nextOid :: oid

text \<open>Lines 390-406.\<close>

definition initDashboardUpdate :: "env \<Rightarrow> troupe \<Rightarrow> dashboard \<Rightarrow> dashboard_update" where
  "initDashboardUpdate env tr dash =
     \<lparr>d_lastUpdated = now env,
      upcomingBirthdays =
        \<lparr>frequency = desiredFrequency (upcomingBirthdays (d_fields dash)),
         desiredFrequency = desiredFrequency (upcomingBirthdays (d_fields dash)),
         bd_members = []\<rparr>,
      totalMembers = 0, totalEvents = 0,
      totalEventTypes = int (length (eventTypes tr)),
      totalAttendees = Undefined,
      totalAttendeesByEventType = [], totalEventsByEventType = [],
      avgAttendeesPerEvent = Num 0,
      avgAttendeesByEventType = [], attendeePercentageByEventType = [],
      eventPercentageByEventType = []\<rparr>"

text \<open>Lines 409-420: one entry per event type in each of the five tables.\<close>

definition initStats :: "dashboard_update \<Rightarrow> event_type \<Rightarrow> dashboard_update" where
  "initStats du eventType =
     (let typeId = et_id eventType;
          s = \<lparr>s_title = et_title eventType, s_value = Num 0\<rparr>;
          p = \<lparr>ps_title = et_title eventType, ps_value = Num 0, ps_percent = Num 0\<rparr>
      in du\<lparr>totalAttendeesByEventType := AList.update typeId s (totalAttendeesByEventType du),
            totalEventsByEventType := AList.update typeId s (totalEventsByEventType du),
            avgAttendeesByEventType := AList.update typeId s (avgAttendeesByEventType du),
            attendeePercentageByEventType :=
              AList.update typeId p (attendeePercentageByEventType du),
            eventPercentageByEventType :=
              AList.update typeId p (eventPercentageByEventType du)\<rparr>)"

text \<open>\<^verbatim>\<open>table[id].value += 1\<close>, which throws when the table has no entry for \<open>id\<close>.\<close>

definition bumpStat :: "oid \<Rightarrow> (oid \<times> stat) list \<Rightarrow> error + (oid \<times> stat) list" where
  "bumpStat k m =
     (case map_of m k of
        None \<Rightarrow> Inl (TypeError ''Cannot read properties of undefined (reading value)'')
      | Some s \<Rightarrow> Inr (AList.update k (s\<lparr>s_value := js_inc (s_value s)\<rparr>) m))"

definition bumpPStat :: "oid \<Rightarrow> (oid \<times> pstat) list \<Rightarrow> error + (oid \<times> pstat) list" where
  "bumpPStat k m =
     (case map_of m k of
        None \<Rightarrow> Inl (TypeError ''Cannot read properties of undefined (reading value)'')
      | Some s \<Rightarrow> Inr (AList.update k (s\<lparr>ps_value := js_inc (ps_value s)\<rparr>) m))"

text \<open>The body of the loop over the event map (lines 424-434).\<close>

definition countEvent :: "persist_acc \<Rightarrow> string \<times> event_data \<Rightarrow> error + persist_acc" where
  "countEvent acc kv =
     (let ev = ed_event (snd kv);
          du = (dashboardUpdate acc)\<lparr>totalEvents := totalEvents (dashboardUpdate acc) + 1\<rparr>;
          acc1 = acc\<lparr>updateEvents := updateEvents acc @ [ev]\<rparr>
      in case eventTypeId ev of
           None \<Rightarrow> Inr (acc1\<lparr>dashboardUpdate := du\<rparr>)
         | Some typeId \<Rightarrow>
             (case bumpStat typeId (totalEventsByEventType du) of
                Inl e \<Rightarrow> Inl e
              | Inr te \<Rightarrow>
                  (case bumpPStat typeId (eventPercentageByEventType du) of
                     Inl e \<Rightarrow> Inl e
                   | Inr ep \<Rightarrow>
                       Inr (acc1\<lparr>dashboardUpdate :=
                              du\<lparr>totalEventsByEventType := te,
                                 eventPercentageByEventType := ep\<rparr>\<rparr>))))"

text \<open>\<^verbatim>\<open>birthday && birthday < birthdayCutoff\<close>, the cutoff being a \<^verbatim>\<open>Date\<close>.\<close>

fun birthdayBefore :: "env \<Rightarrow> pval option \<Rightarrow> date \<Rightarrow> bool" where
  "birthdayBefore env None c = False"
| "birthdayBefore env (Some PNull) c = False"
| "birthdayBefore env (Some (PDate d)) c = (d < c)"
| "birthdayBefore env (Some (PNum n)) c = (n \<noteq> 0 \<and> n < c)"
| "birthdayBefore env (Some (PBool b)) c = (b \<and> 1 < c)"
| "birthdayBefore env (Some (PStr s)) c =
     (s \<noteq> [] \<and> (case stringToNumber env s of None \<Rightarrow> False | Some n \<Rightarrow> n < c))"

text \<open>Lines 461-469.\<close>

definition addBirthday :: "env \<Rightarrow> date \<Rightarrow> member \<Rightarrow> dashboard_update \<Rightarrow> error + dashboard_update" where
  "addBirthday env birthdayCutoff m du =
     (case map_of (properties m) ''Birthday'' of
        None \<Rightarrow> Inl (TypeError ''Cannot read properties of undefined (reading value)'')
      | Some bp \<Rightarrow>
          if birthdayBefore env (p_value bp) birthdayCutoff then
            (case map_of (properties m) ''First Name'' of
               None \<Rightarrow> Inl (TypeError ''Cannot read properties of undefined (reading value)'')
             | Some fp \<Rightarrow>
                 (case map_of (properties m) ''Last Name'' of
                    None \<Rightarrow> Inl (TypeError ''Cannot read properties of undefined (reading value)'')
                  | Some lp \<Rightarrow>
                      Inr (du\<lparr>upcomingBirthdays := (upcomingBirthdays du)
                             \<lparr>bd_members := bd_members (upcomingBirthdays du) @
                                [\<lparr>bd_id = m_id m, bd_firstName = p_value fp,
                                  bd_lastName = p_value lp, bd_birthday = p_value bp\<rparr>]\<rparr>\<rparr>)))
          else Inr du)"

text \<open>
  The body of the \<^verbatim>\<open>for\<close> loop of lines 492-507: the record enters the local object
  \<^verbatim>\<open>events\<close> under its event id and the dashboard counts it.
\<close>

definition addAttended ::
  "(oid \<times> bucket_entry) list \<times> dashboard_update \<Rightarrow> attended \<Rightarrow>
   error + (oid \<times> bucket_entry) list \<times> dashboard_update" where
  "addAttended acc a =
     (let events = AList.update (a_eventId a)
                     \<lparr>be_typeId = a_typeId a, be_value = a_value a, be_startDate = a_startDate a\<rparr>
                     (fst acc);
          du = snd acc
      in case a_typeId a of
           None \<Rightarrow> Inr (events, du\<lparr>totalAttendees := js_inc (totalAttendees du)\<rparr>)
         | Some typeId \<Rightarrow>
             (case bumpStat typeId (totalAttendeesByEventType du) of
                Inl e \<Rightarrow> Inl e
              | Inr ta \<Rightarrow>
                  (case bumpStat typeId (avgAttendeesByEventType du) of
                     Inl e \<Rightarrow> Inl e
                   | Inr av \<Rightarrow>
                       (case bumpPStat typeId (attendeePercentageByEventType du) of
                          Inl e \<Rightarrow> Inl e
                        | Inr ap \<Rightarrow>
                            Inr (events,
                                 du\<lparr>totalAttendeesByEventType := ta,
                                    avgAttendeesByEventType := av,
                                    attendeePercentageByEventType := ap,
                                    totalAttendees := js_inc (totalAttendees du)\<rparr>)))))"

text \<open>
  Lines 478-487 and 511: the bucket pushed for page \<open>pg\<close>. \<open>r\<close> is the local object
  \<^verbatim>\<open>events\<close> with the dashboard after the \<^verbatim>\<open>for\<close> loop. The stored bucket at index \<open>pg\<close>
  is pushed as it is: \<^verbatim>\<open>events\<close> is the \<^verbatim>\<open>events\<close> of a bucket only when the bucket is
  created here.
\<close>

definition pushBucket ::
  "oid \<Rightarrow> oid \<Rightarrow> member_data \<Rightarrow> nat \<Rightarrow> (oid \<times> bucket_entry) list \<times> dashboard_update \<Rightarrow>
   persist_acc \<Rightarrow> persist_acc" where
  "pushBucket troupeId memberId memberData pg r acc =
     (if pg < length (eventsAttendedDocs memberData)
      then acc\<lparr>dashboardUpdate := snd r,
               updateEventsAttended :=
                 updateEventsAttended acc @ [eventsAttendedDocs memberData ! pg]\<rparr>
      else acc\<lparr>dashboardUpdate := snd r,
               updateEventsAttended :=
                 updateEventsAttended acc @
                   [\<lparr>b_id = pa_nextOid acc, b_troupeId = troupeId,
                     b_memberId = memberId, page = pg, b_events = fst r\<rparr>],
               pa_nextOid := Suc (pa_nextOid acc)\<rparr>)"

text \<open>
  The \<^verbatim>\<open>while\<close> loop of lines 474-513 with its variables \<^verbatim>\<open>page\<close> and \<^verbatim>\<open>docsProcessed\<close>.
  The result is the final \<^verbatim>\<open>page\<close> with the accumulators.
\<close>

partial_function (option) bucketLoop ::
  "oid \<Rightarrow> oid \<Rightarrow> member_data \<Rightarrow> nat \<Rightarrow> int \<Rightarrow> persist_acc \<Rightarrow> (error + nat \<times> persist_acc) option" where
  "bucketLoop troupeId memberId memberData pg docsProcessed acc =
     (if docsProcessed < int (length (eventsAttended memberData)) then
        (let startIndex = pg * MAX_PAGE_SIZE;
             endIndex = min (startIndex + MAX_PAGE_SIZE) (length (eventsAttended memberData))
         in case foldE addAttended
                   (map (\<lambda>i. eventsAttended memberData ! i) [startIndex..<endIndex])
                   ([], dashboardUpdate acc) of
              Inl e \<Rightarrow> Some (Inl e)
            | Inr r \<Rightarrow>
                bucketLoop troupeId memberId memberData (pg + 1)
                  (docsProcessed + (int endIndex - int startIndex))
                  (pushBucket troupeId memberId memberData pg r acc))
      else Some (Inr (pg, acc)))"

declare bucketLoop.simps [code]

text \<open>The body of the loop over the attendee map (lines 446-521).\<close>

definition persistMember ::
  "env \<Rightarrow> oid \<Rightarrow> date \<Rightarrow> persist_acc \<Rightarrow> string \<times> member_data \<Rightarrow> (error + persist_acc) option" where
  "persistMember env troupeId birthdayCutoff acc kv =
     (let memberData = snd kv; memberId = m_id (md_member memberData) in
      if md_delete memberData \<and> md_fromColl memberData then
        Some (Inr (acc\<lparr>membersToDelete := membersToDelete acc @ [m_id (md_member memberData)],
                       eventsAttendedToDelete :=
                         eventsAttendedToDelete acc @ map b_id (eventsAttendedDocs memberData)\<rparr>))
      else
        (case addBirthday env birthdayCutoff (md_member memberData) (dashboardUpdate acc) of
           Inl e \<Rightarrow> Some (Inl e)
         | Inr du \<Rightarrow>
             (case bucketLoop troupeId memberId memberData 0 0
                     (acc\<lparr>updateAudience := updateAudience acc @ [md_member memberData],
                          dashboardUpdate := du\<lparr>totalMembers := totalMembers du + 1\<rparr>\<rparr>) of
                None \<Rightarrow> None
              | Some (Inl e) \<Rightarrow> Some (Inl e)
              | Some (Inr r) \<Rightarrow>
                  Some (Inr ((snd r)\<lparr>eventsAttendedToDelete :=
                               eventsAttendedToDelete (snd r) @
                                 map b_id (drop (fst r) (eventsAttendedDocs memberData))\<rparr>)))))"

text \<open>
  The body of the closing loop (lines 528-539). Line 526 assigns to the in-memory
  \<^verbatim>\<open>this.dashboard\<close>, which nothing reads afterwards; it is not part of the update.
\<close>

definition finishStats :: "dashboard_update \<Rightarrow> event_type \<Rightarrow> error + dashboard_update" where
  "finishStats du eventType =
     (let typeId = et_id eventType in
      case map_of (totalEventsByEventType du) typeId of
        None \<Rightarrow> Inl (TypeError ''Cannot read properties of undefined (reading value)'')
      | Some te \<Rightarrow>
      (case map_of (totalAttendeesByEventType du) typeId of
        None \<Rightarrow> Inl (TypeError ''Cannot read properties of undefined (reading value)'')
      | Some ta \<Rightarrow>
      (case map_of (avgAttendeesByEventType du) typeId of
        None \<Rightarrow> Inl (TypeError ''Cannot read properties of undefined (reading value)'')
      | Some av \<Rightarrow>
      (case map_of (attendeePercentageByEventType du) typeId of
        None \<Rightarrow> Inl (TypeError ''Cannot set properties of undefined (setting value)'')
      | Some ap \<Rightarrow>
      (case map_of (eventPercentageByEventType du) typeId of
        None \<Rightarrow> Inl (TypeError ''Cannot set properties of undefined (setting value)'')
      | Some ep \<Rightarrow>
          Inr (du\<lparr>avgAttendeesByEventType :=
                    AList.update typeId
                      (av\<lparr>s_value := (if js_gt0 (s_value te)
                                       then js_round (js_div (s_value av) (s_value te))
                                       else Num 0)\<rparr>)
                      (avgAttendeesByEventType du),
                  attendeePercentageByEventType :=
                    AList.update typeId
                      (ap\<lparr>ps_value := (if js_gt0 (totalAttendees du)
                                        then js_div (s_value ta) (totalAttendees du)
                                        else Num 0)\<rparr>)
                      (attendeePercentageByEventType du),
                  eventPercentageByEventType :=
                    AList.update typeId
                      (ep\<lparr>ps_value := (if 0 < totalEvents du
                                        then js_div (s_value te) (Num (of_int (totalEvents du)))
                                        else Num 0)\<rparr>)
                      (eventPercentageByEventType du)\<rparr>))))))"

text \<open>Everything \<^verbatim>\<open>persistSync\<close> computes before it opens the transaction (lines 386-539).\<close>

definition buildUpdate :: "env \<Rightarrow> sync_state \<Rightarrow> (error + persist_acc) option" where
  "buildUpdate env st =
     (case s_troupe st of
        None \<Rightarrow> Some (Inl (AssertionError []))
      | Some tr \<Rightarrow>
      (case s_dashboard st of
        None \<Rightarrow> Some (Inl (AssertionError []))
      | Some dash \<Rightarrow>
          let du0 = fold (\<lambda>eventType du. initStats du eventType) (eventTypes tr)
                      (initDashboardUpdate env tr dash);
              acc0 = \<lparr>dashboardUpdate = du0, updateEvents = [], updateAudience = [],
                      membersToDelete = [], updateEventsAttended = [],
                      eventsAttendedToDelete = [], pa_nextOid = nextOid st\<rparr>
          in
          (case foldE countEvent (eventMap st) acc0 of
             Inl e \<Rightarrow> Some (Inl e)
           | Inr acc1 \<Rightarrow>
               let birthdayCutoff =
                     (if frequency (upcomingBirthdays (dashboardUpdate acc1)) = ''weekly''
                      then now env + FULL_DAY env * 7 else now env + FULL_DAY env * 30)
               in
               (case foldP (persistMember env (t_id tr) birthdayCutoff) (attendeeMap st) acc1 of
                  None \<Rightarrow> None
                | Some (Inl e) \<Rightarrow> Some (Inl e)
                | Some (Inr acc2) \<Rightarrow>
                    (case foldE finishStats (eventTypes tr) (dashboardUpdate acc2) of
                       Inl e \<Rightarrow> Some (Inl e)
                     | Inr du \<Rightarrow> Some (Inr (acc2\<lparr>dashboardUpdate := du\<rparr>)))))))"

subsection \<open>The quota ledger\<close>

text \<open>
  Modelled from the spec: \<^verbatim>\<open>LimitService\<close> (\<^verbatim>\<open>services/limits.ts\<close>) is not among the
  sources. Section 4.5: \<^verbatim>\<open>getLimits\<close> returns the tenant's remaining counters;
  \<^verbatim>\<open>incrementLimits\<close> applies a signed delta to the counters atomically and refuses, with
  no mutation, when a resulting counter would be negative.
\<close>

definition getTroupeLimits :: "db \<Rightarrow> oid \<Rightarrow> limits option" where
  "getTroupeLimits database troupeId = map_of (limitsColl database) troupeId"

text \<open>Modelled from the spec: see \<^const>\<open>getTroupeLimits\<close>.\<close>

definition incrementTroupeLimits :: "db \<Rightarrow> oid \<Rightarrow> limits \<Rightarrow> db option" where
  "incrementTroupeLimits database troupeId delta =
     (case map_of (limitsColl database) troupeId of
        None \<Rightarrow> None
      | Some l \<Rightarrow>
          let l' = \<lparr>eventsLeft = eventsLeft l + eventsLeft delta,
                    sourceFolderUrisLeft = sourceFolderUrisLeft l + sourceFolderUrisLeft delta,
                    membersLeft = membersLeft l + membersLeft delta\<rparr>
          in if eventsLeft l' < 0 \<or> sourceFolderUrisLeft l' < 0 \<or> membersLeft l' < 0 then None
             else Some (database\<lparr>limitsColl := AList.update troupeId l' (limitsColl database)\<rparr>))"

subsection \<open>\<^verbatim>\<open>persistSync\<close>: the transaction\<close>

text \<open>
  \<^verbatim>\<open>updateOne({ _id }, { $set: doc }, { upsert: true })\<close>: the first document with the key
  takes every field of \<open>doc\<close>; with no such document \<open>doc\<close> is inserted.
\<close>

fun upsert :: "('a \<Rightarrow> oid) \<Rightarrow> 'a \<Rightarrow> 'a list \<Rightarrow> 'a list" where
  "upsert key doc [] = [doc]"
| "upsert key doc (d # ds) = (if key d = key doc then doc # ds else d # upsert key doc ds)"

text \<open>\<^verbatim>\<open>deleteMany({ _id: { $in: ids } })\<close>\<close>

definition deleteMany :: "('a \<Rightarrow> oid) \<Rightarrow> oid list \<Rightarrow> 'a list \<Rightarrow> 'a list" where
  "deleteMany key ids coll = filter (\<lambda>d. key d \<notin> set ids) coll"

text \<open>
  \<^verbatim>\<open>$set\<close> of the dashboard update on a stored dashboard: \<^verbatim>\<open>totalAttendees\<close> is set only
  when the update has the property.
\<close>

definition setFields :: "dashboard_update \<Rightarrow> dashboard_update \<Rightarrow> dashboard_update" where
  "setFields du stored =
     (if totalAttendees du = Undefined then du\<lparr>totalAttendees := totalAttendees stored\<rparr> else du)"

text \<open>\<^verbatim>\<open>dashboardColl.updateOne({ troupeId }, { $set: dashboardUpdate }, { upsert: true })\<close>\<close>

fun setDashboard :: "oid \<Rightarrow> oid \<Rightarrow> dashboard_update \<Rightarrow> dashboard list \<Rightarrow> dashboard list" where
  "setDashboard newId troupeId du [] = [\<lparr>d_id = newId, d_troupeId = troupeId, d_fields = du\<rparr>]"
| "setDashboard newId troupeId du (d # ds) =
     (if d_troupeId d = troupeId then d\<lparr>d_fields := setFields du (d_fields d)\<rparr> # ds
      else d # setDashboard newId troupeId du ds)"

text \<open>
  The callback of \<^verbatim>\<open>withTransaction\<close> (lines 541-580). When the ledger refuses, the assertion
  throws and the transaction is aborted: the result is the error and no new database.
\<close>

definition commit :: "db \<Rightarrow> oid \<Rightarrow> limits \<Rightarrow> persist_acc \<Rightarrow> error + db" where
  "commit database troupeId delta acc =
     (let db1 = database\<lparr>dashboardColl :=
                  setDashboard (pa_nextOid acc) troupeId (dashboardUpdate acc)
                    (dashboardColl database)\<rparr>;
          db2 = db1\<lparr>eventColl := fold (upsert ev_id) (updateEvents acc) (eventColl db1)\<rparr>;
          db3 = db2\<lparr>audienceColl := fold (upsert m_id) (updateAudience acc) (audienceColl db2)\<rparr>;
          db4 = db3\<lparr>audienceColl := deleteMany m_id (membersToDelete acc) (audienceColl db3)\<rparr>;
          db5 = db4\<lparr>eventsAttendedColl :=
                  fold (upsert b_id) (updateEventsAttended acc) (eventsAttendedColl db4)\<rparr>;
          db6 = db5\<lparr>eventsAttendedColl :=
                  deleteMany b_id (eventsAttendedToDelete acc) (eventsAttendedColl db5)\<rparr>
      in case incrementTroupeLimits db6 troupeId delta of
           None \<Rightarrow> Inl (AssertionError
             ''Invalid state -- limits exceeded for sync operation. This is unintended behavior.'')
         | Some db7 \<Rightarrow> Inr db7)"

text \<open>\<^verbatim>\<open>persistSync\<close> (lines 385-581).\<close>

definition persistSync :: "env \<Rightarrow> db \<Rightarrow> sync_state \<Rightarrow> (error + db) option" where
  "persistSync env database st =
     (case buildUpdate env st of
        None \<Rightarrow> None
      | Some (Inl e) \<Rightarrow> Some (Inl e)
      | Some (Inr acc) \<Rightarrow>
          (case s_troupe st of
             None \<Rightarrow> Some (Inl (AssertionError []))
           | Some tr \<Rightarrow> Some (commit database (t_id tr) (incrementLimits st) acc)))"

subsection \<open>\<^verbatim>\<open>refreshLogSheet\<close>\<close>

text \<open>
  Lines 584-610: the events sorted by start date and the audience sorted by total points
  go to the log publisher.
\<close>

definition toAttendee :: "member_data \<Rightarrow> attendee" where
  "toAttendee md =
     \<lparr>at_member = md_member md,
      at_eventsAttended =
        fold (\<lambda>e m. AList.update (a_eventId e)
                       \<lparr>be_typeId = a_typeId e, be_value = a_value e, be_startDate = a_startDate e\<rparr> m)
          (eventsAttended md) []\<rparr>"

text \<open>
  The sort key of the audience: \<^verbatim>\<open>points["Total"]\<close>, which every member carries (the point
  type \<^verbatim>\<open>Total\<close> is part of every troupe).
\<close>

definition totalPoints :: "attendee \<Rightarrow> int" where
  "totalPoints a = (case map_of (points (at_member a)) ''Total'' of Some p \<Rightarrow> p | None \<Rightarrow> 0)"

definition refreshLogSheet :: "env \<Rightarrow> sync_state \<Rightarrow> error option" where
  "refreshLogSheet env st =
     (case s_troupe st of
        None \<Rightarrow> Some (TypeError ''Cannot read properties of null (reading logSheetUri)'')
      | Some tr \<Rightarrow>
          updateLog env (logSheetUri tr) tr
            (sort_key startDate (map (\<lambda>kv. ed_event (snd kv)) (eventMap st)))
            (sort_key totalPoints (map (\<lambda>kv. toAttendee (snd kv)) (attendeeMap st))))"

subsection \<open>\<^verbatim>\<open>sync\<close>\<close>

text \<open>\<^verbatim>\<open>troupeColl.findOne({ _id })\<close>\<close>

definition findTroupe :: "db \<Rightarrow> oid \<Rightarrow> troupe option" where
  "findTroupe database troupeId = find (\<lambda>t. t_id t = troupeId) (troupeColl database)"

definition getTroupeSchema :: "db \<Rightarrow> oid \<Rightarrow> error + troupe" where
  "getTroupeSchema database troupeId =
     (case findTroupe database troupeId of
        None \<Rightarrow> Inl (AssertionError ''Unable to find troupe'')
      | Some schema \<Rightarrow> Inr schema)"

text \<open>
  \<^verbatim>\<open>$set: { syncLock: v }\<close> on the first troupe with the id; the number is the
  \<^verbatim>\<open>modifiedCount\<close>: a document whose lock already is \<open>v\<close> is matched, not modified.
\<close>

fun setSyncLock :: "oid \<Rightarrow> bool \<Rightarrow> troupe list \<Rightarrow> troupe list \<times> nat" where
  "setSyncLock troupeId v [] = ([], 0)"
| "setSyncLock troupeId v (t # ts) =
     (if t_id t = troupeId then (t\<lparr>syncLock := v\<rparr> # ts, if syncLock t = v then 0 else 1)
      else (t # fst (setSyncLock troupeId v ts), snd (setSyncLock troupeId v ts)))"

text \<open>
  The \<^verbatim>\<open>try\<close> block of \<^verbatim>\<open>sync\<close> (lines 87-98): the database it leaves and the error it
  threw, if any. An error thrown before or inside the transaction leaves the database as
  it was; one thrown by the log publication comes after the commit.
\<close>

text \<open>
  The fields of a \<^verbatim>\<open>SyncTroupe\<close> as the constructor and lines 79-92 set them; \<open>seed\<close> is
  the first \<^verbatim>\<open>ObjectId\<close> this run will draw.
\<close>

definition initialState :: "troupe \<Rightarrow> dashboard \<Rightarrow> limits \<Rightarrow> oid \<Rightarrow> sync_state" where
  "initialState tr dash troupeLimits seed =
     \<lparr>s_troupe = Some tr, s_dashboard = Some dash, currentLimits = troupeLimits,
      eventMap = [], attendeeMap = [],
      incrementLimits = \<lparr>eventsLeft = 0, sourceFolderUrisLeft = 0, membersLeft = 0\<rparr>,
      nextOid = seed\<rparr>"

definition syncSteps :: "env \<Rightarrow> oid \<Rightarrow> db \<Rightarrow> troupe \<Rightarrow> oid \<Rightarrow> bool \<Rightarrow> (db \<times> error option) option" where
  "syncSteps env seed database tr troupeId skipLogPublish =
     (case find (\<lambda>d. d_troupeId d = troupeId) (dashboardColl database) of
        None \<Rightarrow> Some (database, Some (AssertionError ''Failed to get dashboard for sync''))
      | Some dash \<Rightarrow>
      (case getTroupeLimits database troupeId of
        None \<Rightarrow> Some (database, Some (AssertionError ''No limits document found for troupe''))
      | Some troupeLimits \<Rightarrow>
          let st = initialState tr dash troupeLimits seed
          in
          (case discoverEvents env database st of
             Inl e \<Rightarrow> Some (database, Some e)
           | Inr st1 \<Rightarrow>
          (case discoverAndRefreshAudience env database st1 of
             Inl e \<Rightarrow> Some (database, Some e)
           | Inr st2 \<Rightarrow>
          (case persistSync env database st2 of
             None \<Rightarrow> None
           | Some (Inl e) \<Rightarrow> Some (database, Some e)
           | Some (Inr db') \<Rightarrow>
               if skipLogPublish then Some (db', None)
               else Some (db', refreshLogSheet env st2))))))"

text \<open>
  What a call of \<^verbatim>\<open>sync\<close> leaves: the database, what the \<^verbatim>\<open>catch\<close> block wrote with
  \<^verbatim>\<open>console.error\<close>, and whether the call returned (\<open>Inr ()\<close>) or threw to its caller.
\<close>

record sync_result =
  r_db :: db
  r_logged :: "error option"
  r_outcome :: "error + unit"

text \<open>\<^verbatim>\<open>sync\<close> (lines 75-110).\<close>

definition sync :: "env \<Rightarrow> oid \<Rightarrow> db \<Rightarrow> oid \<Rightarrow> bool \<Rightarrow> sync_result option" where
  "sync env seed database troupeId skipLogPublish =
     (case getTroupeSchema database troupeId of
        Inl e \<Rightarrow> Some \<lparr>r_db = database, r_logged = None, r_outcome = Inl e\<rparr>
      | Inr schema \<Rightarrow>
          if syncLock schema then
            Some \<lparr>r_db = database, r_logged = None,
                  r_outcome = Inl (AssertionError ''Troupe is already being synced'')\<rparr>
          else
            let db1 = database\<lparr>troupeColl := fst (setSyncLock troupeId True (troupeColl database))\<rparr> in
            (case findTroupe db1 troupeId of
               None \<Rightarrow>
                 Some \<lparr>r_db = db1, r_logged = None,
                       r_outcome = Inl (AssertionError ''Failed to lock troupe for sync'')\<rparr>
             | Some tr \<Rightarrow>
                 (case syncSteps env seed db1 tr troupeId skipLogPublish of
                    None \<Rightarrow> None
                  | Some r \<Rightarrow>
                      let unlockResult = setSyncLock troupeId False (troupeColl (fst r));
                          db3 = (fst r)\<lparr>troupeColl := fst unlockResult\<rparr>
                      in if snd unlockResult = 1
                         then Some \<lparr>r_db = db3, r_logged = snd r, r_outcome = Inr ()\<rparr>
                         else Some \<lparr>r_db = db3, r_logged = snd r,
                                    r_outcome = Inl (AssertionError
                                      ''Failed to unlock troupe after sync'')\<rparr>)))"

subsection \<open>Readings of the state used in the statements\<close>

text \<open>The owner of a folder and the \<^verbatim>\<open>totalFiles\<close> of a discovery event type.\<close>

definition ownerOf :: "disc \<Rightarrow> string \<Rightarrow> nat option" where
  "ownerOf d folderId = map_of (folderToEventTypeMap d) folderId"

definition countOf :: "disc \<Rightarrow> nat \<Rightarrow> int" where
  "countOf d i = totalFiles (dets d ! i)"

text \<open>
  The five per-event-type values of a dashboard update for one event type: events,
  attendees, average attendees, attendee share, event share.
\<close>

definition statsOf :: "dashboard_update \<Rightarrow> oid \<Rightarrow> (jsnum \<times> jsnum \<times> jsnum \<times> jsnum \<times> jsnum) option" where
  "statsOf du typeId =
     (case map_of (totalEventsByEventType du) typeId of None \<Rightarrow> None | Some te \<Rightarrow>
      case map_of (totalAttendeesByEventType du) typeId of None \<Rightarrow> None | Some ta \<Rightarrow>
      case map_of (avgAttendeesByEventType du) typeId of None \<Rightarrow> None | Some av \<Rightarrow>
      case map_of (attendeePercentageByEventType du) typeId of None \<Rightarrow> None | Some ap \<Rightarrow>
      case map_of (eventPercentageByEventType du) typeId of None \<Rightarrow> None | Some ep \<Rightarrow>
        Some (s_value te, s_value ta, s_value av, ps_value ap, ps_value ep))"

section \<open>Concrete inputs\<close>

text \<open>
  A small world for the closed theorems below. The troupe has the event types \<open>T\<close> (id 10,
  owning the Drive folder \<open>f\<close>) and \<open>U\<close> (id 11, no folder). The folder \<open>f\<close> holds the
  sub-folder \<open>g\<close> and the forms \<open>a\<close>, \<open>b\<close>, \<open>c\<close>; the sub-folder \<open>g\<close> holds the form \<open>x\<close>.
  The event of form \<open>a\<close> is stored already (id 7). One member is stored (id 20, member
  id \<open>m1\<close>) with one bucket (id 30) holding the event 7. The forms delegate finds a
  sign-up of \<open>m1\<close> in the forms \<open>a\<close> and \<open>b\<close>, and in \<open>b\<close> one of an unknown \<open>m2\<close> that
  gives no email.
\<close>

definition demoFiles :: "string \<Rightarrow> error + drive_file list option" where
  "demoFiles folderId =
     (if folderId = ''f'' then
        Inr (Some [\<lparr>f_id = ''g'', f_name = ''sub'', f_mimeType = ''folder''\<rparr>,
                   \<lparr>f_id = ''a'', f_name = ''A'', f_mimeType = ''form''\<rparr>,
                   \<lparr>f_id = ''b'', f_name = ''B'', f_mimeType = ''form''\<rparr>,
                   \<lparr>f_id = ''c'', f_name = ''C'', f_mimeType = ''form''\<rparr>])
      else if folderId = ''g'' then
        Inr (Some [\<lparr>f_id = ''x'', f_name = ''X'', f_mimeType = ''form''\<rparr>])
      else Inl (ExternalError ''File not found''))"

definition demoAttended :: "event \<Rightarrow> attended" where
  "demoAttended ev =
     \<lparr>a_eventId = ev_id ev, a_typeId = eventTypeId ev, a_value = ev_value ev,
      a_startDate = startDate ev\<rparr>"

definition demoNewMember :: "oid \<Rightarrow> date \<Rightarrow> event \<Rightarrow> member_data" where
  "demoNewMember newId lastUpdated ev =
     \<lparr>md_member =
        \<lparr>m_id = newId, m_troupeId = ev_troupeId ev, m_lastUpdated = lastUpdated,
         properties =
           [(''Member ID'', \<lparr>p_value = Some (PStr ''m2''), p_override = False\<rparr>),
            (''Email'', \<lparr>p_value = None, p_override = False\<rparr>),
            (''Birthday'', \<lparr>p_value = None, p_override = False\<rparr>)],
         points = [(''Total'', ev_value ev)]\<rparr>,
      eventsAttended = [demoAttended ev], eventsAttendedDocs = [],
      md_delete = False, md_fromColl = False\<rparr>"

definition demoSignUp :: "event \<Rightarrow> string \<times> member_data \<Rightarrow> string \<times> member_data" where
  "demoSignUp ev kv =
     (if fst kv = ''m1''
      then (fst kv, (snd kv)\<lparr>eventsAttended := eventsAttended (snd kv) @ [demoAttended ev]\<rparr>)
      else kv)"

definition demoForms :: "sync_state \<Rightarrow> event \<Rightarrow> date \<Rightarrow> error + sync_state" where
  "demoForms st ev lastUpdated =
     (if sourceUri ev = ''a'' then
        Inr (st\<lparr>attendeeMap := map (demoSignUp ev) (attendeeMap st)\<rparr>)
      else if sourceUri ev = ''b'' then
        Inr (st\<lparr>attendeeMap :=
               AList.update ''m2'' (demoNewMember (nextOid st) lastUpdated ev)
                 (map (demoSignUp ev) (attendeeMap st)),
               incrementLimits := (incrementLimits st)
                 \<lparr>membersLeft := membersLeft (incrementLimits st) - 1\<rparr>,
               nextOid := Suc (nextOid st)\<rparr>)
      else Inr st)"

definition demoEnv :: env where
  "demoEnv =
     \<lparr>now = 1000, FULL_DAY = 86400000, DRIVE_FOLDER_MIME = ''folder'',
      dataSourceOfMime = (\<lambda>m. if m = ''form'' then Some ''Google Forms'' else None),
      getDataSourceId = (\<lambda>kind uri. uri),
      getDataSourceUrl = (\<lambda>source fileId. fileId),
      files_list = demoFiles,
      gformsDiscoverAudience = demoForms,
      gsheetsDiscoverAudience = (\<lambda>st ev t. Inr st),
      updateLog = (\<lambda>uri tr evs as. None),
      toPropertyKey = (\<lambda>v. ''undefined''),
      stringToNumber = (\<lambda>s. None)\<rparr>"

definition demoTroupe :: troupe where
  "demoTroupe =
     \<lparr>t_id = 1, syncLock = False,
      eventTypes = [\<lparr>et_id = 10, et_title = ''T'', et_value = 5, sourceFolderUris = [''f'']\<rparr>,
                    \<lparr>et_id = 11, et_title = ''U'', et_value = 2, sourceFolderUris = []\<rparr>],
      memberPropertyTypes =
        [(''Member ID'', ''string!''), (''Email'', ''string!''), (''Birthday'', ''date?'')],
      pointTypes = [(''Total'', 0, 100)], logSheetUri = ''log''\<rparr>"

definition demoDashboard :: dashboard where
  "demoDashboard =
     \<lparr>d_id = 2, d_troupeId = 1,
      d_fields =
        \<lparr>d_lastUpdated = 0,
         upcomingBirthdays = \<lparr>frequency = ''weekly'', desiredFrequency = ''weekly'', bd_members = []\<rparr>,
         totalMembers = 0, totalEvents = 0, totalEventTypes = 0, totalAttendees = Undefined,
         totalAttendeesByEventType = [], totalEventsByEventType = [],
         avgAttendeesPerEvent = Num 0, avgAttendeesByEventType = [],
         attendeePercentageByEventType = [], eventPercentageByEventType = []\<rparr>\<rparr>"

definition demoEvent :: event where
  "demoEvent =
     \<lparr>ev_id = 7, ev_troupeId = 1, ev_lastUpdated = 0, ev_title = ''A'',
      ev_source = ''Google Forms'', synchronizedSource = ''Google Forms'', sourceUri = ''a'',
      synchronizedSourceUri = ''a'', startDate = 0, eventTypeId = None, eventTypeTitle = None,
      ev_value = 5, fieldToPropertyMap = [], synchronizedFieldToPropertyMap = []\<rparr>"

definition demoMember :: member where
  "demoMember =
     \<lparr>m_id = 20, m_troupeId = 1, m_lastUpdated = 0,
      properties =
        [(''Member ID'', \<lparr>p_value = Some (PStr ''m1''), p_override = False\<rparr>),
         (''Email'', \<lparr>p_value = Some (PStr ''x@y''), p_override = False\<rparr>),
         (''Birthday'', \<lparr>p_value = None, p_override = False\<rparr>)],
      points = [(''Total'', 3)]\<rparr>"

definition demoBucket :: bucket where
  "demoBucket =
     \<lparr>b_id = 30, b_troupeId = 1, b_memberId = 20, page = 0,
      b_events = [(7, \<lparr>be_typeId = None, be_value = 5, be_startDate = 0\<rparr>)]\<rparr>"

text \<open>The database, with \<open>q\<close> the remaining quota of new events.\<close>

definition demoDb :: "int \<Rightarrow> db" where
  "demoDb q =
     \<lparr>troupeColl = [demoTroupe], dashboardColl = [demoDashboard], eventColl = [demoEvent],
      audienceColl = [demoMember], eventsAttendedColl = [demoBucket],
      limitsColl = [(1, \<lparr>eventsLeft = q, sourceFolderUrisLeft = 5, membersLeft = 5\<rparr>)]\<rparr>"

text \<open>The same database with the stored member lacking its email.\<close>

definition demoDbNoEmail :: db where
  "demoDbNoEmail =
     (demoDb 5)\<lparr>audienceColl :=
        [demoMember\<lparr>properties :=
           [(''Member ID'', \<lparr>p_value = Some (PStr ''m1''), p_override = False\<rparr>),
            (''Email'', \<lparr>p_value = None, p_override = False\<rparr>),
            (''Birthday'', \<lparr>p_value = None, p_override = False\<rparr>)]\<rparr>]\<rparr>"

definition demoStart :: "int \<Rightarrow> sync_state" where
  "demoStart q =
     initialState demoTroupe demoDashboard
       \<lparr>eventsLeft = q, sourceFolderUrisLeft = 5, membersLeft = 5\<rparr> 100"

text \<open>A state for the commit: the stored event, linked to \<open>T\<close>, and no member.\<close>

definition demoState :: sync_state where
  "demoState =
     (demoStart 5)\<lparr>eventMap := [(''a'', \<lparr>ed_event = demoEvent\<lparr>eventTypeId := Some 10\<rparr>,
                                        ed_fromColl = True\<rparr>)]\<rparr>"

text \<open>Two event types \<open>A\<close> (index 0) and \<open>B\<close> (index 1); \<open>A\<close> owns the folder \<open>f\<close>.\<close>

definition demoDisc :: "int \<Rightarrow> int \<Rightarrow> disc" where
  "demoDisc a b =
     \<lparr>dets = [\<lparr>det_id = 10, det_title = ''A'', det_value = 1, det_sourceFolderUris = [''f''],
                totalFiles = a\<rparr>,
               \<lparr>det_id = 11, det_title = ''B'', det_value = 1, det_sourceFolderUris = [''f''],
                totalFiles = b\<rparr>],
      folderToEventTypeMap = [(''f'', 0)], foldersToExplore = [''f''], discoveredFolders = []\<rparr>"

section \<open>Theorems\<close>

subsection \<open>Invariants of the loops\<close>

lemma bucketLoop_invariant:
  assumes run: "bucketLoop t m md pg dp acc = Some (Inr res)"
    and init: "P acc"
    and step: "\<And>pg acc r xs. P acc \<Longrightarrow> foldE addAttended xs ([], dashboardUpdate acc) = Inr r
                 \<Longrightarrow> P (pushBucket t m md pg r acc)"
  shows "P (snd res)"
proof -
  have "t' = t \<longrightarrow> m' = m \<longrightarrow> md' = md \<longrightarrow> (\<forall>res. y = Inr res \<longrightarrow> P acc' \<longrightarrow> P (snd res))"
    if loop: "bucketLoop t' m' md' pg' dp' acc' = Some y" for t' m' md' pg' dp' acc' y
  proof (rule bucketLoop.raw_induct
      [where P = "\<lambda>t' m' md' pg dp acc y.
         t' = t \<longrightarrow> m' = m \<longrightarrow> md' = md \<longrightarrow> (\<forall>res. y = Inr res \<longrightarrow> P acc \<longrightarrow> P (snd res))",
       OF _ loop], goal_cases)
    case (1 bl t' m' md' pg dp acc y)
    show ?case
    proof (intro impI allI)
      fix res
      assume eq: "t' = t" "m' = m" "md' = md" and y: "y = Inr res" and P: "P acc"
      show "P (snd res)"
      proof (cases "dp < int (length (eventsAttended md'))")
        case False
        with 1(2) y P show ?thesis by auto
      next
        case True
        let ?xs = "map (\<lambda>i. eventsAttended md' ! i)
                     [pg * MAX_PAGE_SIZE..<min (pg * MAX_PAGE_SIZE + MAX_PAGE_SIZE) (length (eventsAttended md'))]"
        show ?thesis
        proof (cases "foldE addAttended ?xs ([], dashboardUpdate acc)")
          case (Inl e)
          with 1(2) True y show ?thesis by (simp add: Let_def)
        next
          case (Inr r)
          with 1(2) True have
            "bl t' m' md' (pg + 1)
               (dp + (int (min (pg * MAX_PAGE_SIZE + MAX_PAGE_SIZE) (length (eventsAttended md')))
                       - int (pg * MAX_PAGE_SIZE)))
               (pushBucket t' m' md' pg r acc) = Some y"
            by (simp add: Let_def)
          from 1(1)[OF this] eq y step[OF P, of ?xs r pg] Inr
          show ?thesis by simp
        qed
      qed
    qed
  qed
  with run init show ?thesis by blast
qed

lemma foldE_invariant:
  assumes "foldE f xs s = Inr s'" and "P s"
    and "\<And>s x s'. P s \<Longrightarrow> f s x = Inr s' \<Longrightarrow> P s'"
  shows "P s'"
  using assms(1,2)
proof (induction xs arbitrary: s)
  case Nil
  then show ?case by simp
next
  case (Cons x xs)
  then show ?case by (auto split: sum.splits intro: assms(3))
qed

lemma foldP_invariant:
  assumes "foldP f xs s = Some (Inr s')" and "P s"
    and "\<And>s x s'. P s \<Longrightarrow> f s x = Some (Inr s') \<Longrightarrow> P s'"
  shows "P s'"
  using assms(1,2)
proof (induction xs arbitrary: s)
  case Nil
  then show ?case by simp
next
  case (Cons x xs)
  then show ?case by (auto split: sum.splits option.splits intro: assms(3))
qed

lemma persistMember_invariant:
  assumes run: "persistMember env t c acc kv = Some (Inr acc')"
    and init: "P acc"
    and del: "\<And>acc ms bs. P acc \<Longrightarrow>
                 P (acc\<lparr>membersToDelete := ms, eventsAttendedToDelete := bs\<rparr>)"
    and start: "\<And>acc du. P acc \<Longrightarrow> addBirthday env c (md_member (snd kv)) (dashboardUpdate acc) = Inr du \<Longrightarrow>
                 P (acc\<lparr>updateAudience := updateAudience acc @ [md_member (snd kv)],
                          dashboardUpdate := du\<lparr>totalMembers := totalMembers du + 1\<rparr>\<rparr>)"
    and step: "\<And>pg acc r xs. P acc \<Longrightarrow> foldE addAttended xs ([], dashboardUpdate acc) = Inr r
                 \<Longrightarrow> P (pushBucket t (m_id (md_member (snd kv))) (snd kv) pg r acc)"
    and fin: "\<And>acc bs. P acc \<Longrightarrow> P (acc\<lparr>eventsAttendedToDelete := bs\<rparr>)"
  shows "P acc'"
proof (cases "md_delete (snd kv) \<and> md_fromColl (snd kv)")
  case True
  with run have "acc' = acc\<lparr>membersToDelete := membersToDelete acc @ [m_id (md_member (snd kv))],
                       eventsAttendedToDelete :=
                         eventsAttendedToDelete acc @ map b_id (eventsAttendedDocs (snd kv))\<rparr>"
    by (simp add: persistMember_def Let_def)
  with del[OF init] show ?thesis by simp
next
  case False
  with run obtain du res where
    b: "addBirthday env c (md_member (snd kv)) (dashboardUpdate acc) = Inr du"
    and l: "bucketLoop t (m_id (md_member (snd kv))) (snd kv) 0 0
              (acc\<lparr>updateAudience := updateAudience acc @ [md_member (snd kv)],
                   dashboardUpdate := du\<lparr>totalMembers := totalMembers du + 1\<rparr>\<rparr>) = Some (Inr res)"
    and a: "acc' = (snd res)\<lparr>eventsAttendedToDelete :=
                       eventsAttendedToDelete (snd res) @
                         map b_id (drop (fst res) (eventsAttendedDocs (snd kv)))\<rparr>"
    by (auto simp: persistMember_def Let_def split: sum.splits option.splits if_splits)
  have "P (snd res)"
  proof (rule bucketLoop_invariant[where P = P, OF l])
    show "P (acc\<lparr>updateAudience := updateAudience acc @ [md_member (snd kv)],
                   dashboardUpdate := du\<lparr>totalMembers := totalMembers du + 1\<rparr>\<rparr>)"
      by (rule start[OF init b])
  next
    fix pg acc r xs
    assume "P acc" "foldE addAttended xs ([], dashboardUpdate acc) = Inr r"
    then show "P (pushBucket t (m_id (md_member (snd kv))) (snd kv) pg r acc)"
      by (rule step)
  qed
  with fin a show ?thesis by simp
qed


subsection \<open>The tie-breaker\<close>

lemma totalFiles_addTotalFiles:
  "i < length ds \<Longrightarrow> totalFiles (addTotalFiles k i ds ! j) = (if j = i then totalFiles (ds ! i) + k else totalFiles (ds ! j))"
  by (simp add: addTotalFiles_def nth_list_update)

lemma length_addTotalFiles [simp]: "length (addTotalFiles k i ds) = length ds"
  by (simp add: addTotalFiles_def)

text \<open>
  C5. A folder claim in the seeding loop, for challenger \<open>c\<close> and folder \<open>fid\<close>. With no
  owner the challenger wins. An owner \<open>ex\<close> other than the challenger keeps the folder if
  and only if its \<open>totalFiles\<close> is strictly less than the challenger's; otherwise (a tie
  included) the challenger wins, the previous owner's count goes down by one, the
  challenger's up by one, every other count stays, and the folder is pushed on the
  worklist.
\<close>

theorem tie_breaker_claim:
  assumes c: "c < length (dets d)"
    and fid: "fid = getDataSourceId env ''Google Drive Folder'' folder"
    and ex: "\<And>ex. ownerOf d fid = Some ex \<Longrightarrow> ex < length (dets d)"
  shows "case ownerOf d fid of
      None \<Rightarrow>
        performEventTypeTieBreaker (dets d) (folderToEventTypeMap d) fid (Some c) = Inr (Some c)
        \<and> (\<exists>d'. seedFolder env c d folder = Inr d' \<and> ownerOf d' fid = Some c
              \<and> countOf d' c = countOf d c + 1
              \<and> (\<forall>j. j \<noteq> c \<longrightarrow> countOf d' j = countOf d j)
              \<and> foldersToExplore d' = foldersToExplore d @ [fid])
    | Some ex \<Rightarrow>
        if ex = c then seedFolder env c d folder = Inr d
        else
          (performEventTypeTieBreaker (dets d) (folderToEventTypeMap d) fid (Some c) = Inr (Some ex))
             = (countOf d ex < countOf d c)
          \<and> (if countOf d ex < countOf d c then seedFolder env c d folder = Inr d
             else
               performEventTypeTieBreaker (dets d) (folderToEventTypeMap d) fid (Some c) = Inr (Some c)
               \<and> (\<exists>d'. seedFolder env c d folder = Inr d' \<and> ownerOf d' fid = Some c
                     \<and> countOf d' ex = countOf d ex - 1
                     \<and> countOf d' c = countOf d c + 1
                     \<and> (\<forall>j. j \<noteq> c \<longrightarrow> j \<noteq> ex \<longrightarrow> countOf d' j = countOf d j)
                     \<and> foldersToExplore d' = foldersToExplore d @ [fid]))"
proof (cases "ownerOf d fid")
  case None
  then show ?thesis
    using c fid
    by (simp add: ownerOf_def countOf_def seedFolder_def performEventTypeTieBreaker_def
        update_conv' totalFiles_addTotalFiles Let_def)
next
  case (Some ex')
  with ex have l: "ex' < length (dets d)" by simp
  show ?thesis
    using Some c l fid
    by (simp add: ownerOf_def countOf_def seedFolder_def performEventTypeTieBreaker_def
        update_conv' totalFiles_addTotalFiles Let_def)
qed


theorem tie_breaker_claim_witness:
  "(\<exists>d'. seedFolder demoEnv 1 (demoDisc 2 1) ''f'' = Inr d' \<and> ownerOf d' ''f'' = Some 1
        \<and> countOf d' 0 = 1 \<and> countOf d' 1 = 2 \<and> foldersToExplore d' = [''f'', ''f''])
   \<and> (\<exists>d'. seedFolder demoEnv 1 (demoDisc 1 1) ''f'' = Inr d' \<and> ownerOf d' ''f'' = Some 1
        \<and> countOf d' 0 = 0 \<and> countOf d' 1 = 2 \<and> foldersToExplore d' = [''f'', ''f''])"
proof -
  have len: "1 < length (dets (demoDisc a b))" for a b
    by (simp add: demoDisc_def)
  have fid: "''f'' = getDataSourceId demoEnv ''Google Drive Folder'' ''f''"
    by (simp add: demoEnv_def)
  have own: "ownerOf (demoDisc a b) ''f'' = Some 0" for a b
    by (simp add: demoDisc_def ownerOf_def)
  have ex: "ownerOf (demoDisc a b) ''f'' = Some ex \<Longrightarrow> ex < length (dets (demoDisc a b))" for a b ex
    by (simp add: demoDisc_def ownerOf_def)
  have cnt: "countOf (demoDisc a b) 0 = a" "countOf (demoDisc a b) (Suc 0) = b"
    "foldersToExplore (demoDisc a b) = [''f'']" for a b
    by (simp_all add: demoDisc_def countOf_def)
  have A: "\<exists>d'. seedFolder demoEnv 1 (demoDisc 2 1) ''f'' = Inr d' \<and> ownerOf d' ''f'' = Some 1
        \<and> countOf d' 0 = 1 \<and> countOf d' 1 = 2 \<and> foldersToExplore d' = [''f'', ''f'']"
    using tie_breaker_claim [OF len fid ex, of 2 1] by (simp add: own cnt) blast
  have B: "\<exists>d'. seedFolder demoEnv 1 (demoDisc 1 1) ''f'' = Inr d' \<and> ownerOf d' ''f'' = Some 1
        \<and> countOf d' 0 = 0 \<and> countOf d' 1 = 2 \<and> foldersToExplore d' = [''f'', ''f'']"
    using tie_breaker_claim [OF len fid ex, of 1 1] by (simp add: own cnt) blast
  from A B show ?thesis by blast
qed

subsection \<open>The orchestrator\<close>

text \<open>The bucket loop started at page \<open>0\<close> ends: each round stores at least one record.\<close>

lemma bucketLoop_returns:
  assumes "dp = int (pg * MAX_PAGE_SIZE) \<or> int (length (eventsAttended md)) \<le> dp"
  shows "\<exists>r. bucketLoop t m md pg dp acc = Some r"
  using assms
proof (induction "nat (int (length (eventsAttended md)) - dp)" arbitrary: pg dp acc rule: less_induct)
  case less
  show ?case
  proof (cases "dp < int (length (eventsAttended md))")
    case False
    then show ?thesis by (subst bucketLoop.simps) simp
  next
    case True
    with less.prems have dp: "dp = int (pg * MAX_PAGE_SIZE)" by simp
    define e where "e = min (pg * MAX_PAGE_SIZE + MAX_PAGE_SIZE) (length (eventsAttended md))"
    have lt: "pg * MAX_PAGE_SIZE < e"
      using True dp by (simp add: e_def MAX_PAGE_SIZE_def)
    have inv: "dp + (int e - int (pg * MAX_PAGE_SIZE)) = int ((pg + 1) * MAX_PAGE_SIZE)
               \<or> int (length (eventsAttended md)) \<le> dp + (int e - int (pg * MAX_PAGE_SIZE))"
      using dp by (auto simp: e_def min_def)
    have dec: "nat (int (length (eventsAttended md)) - (dp + (int e - int (pg * MAX_PAGE_SIZE))))
               < nat (int (length (eventsAttended md)) - dp)"
      using lt True by linarith
    show ?thesis
    proof (cases "foldE addAttended (map (\<lambda>i. eventsAttended md ! i) [pg * MAX_PAGE_SIZE..<e])
                    ([], dashboardUpdate acc)")
      case (Inl err)
      then show ?thesis
        using True by (subst bucketLoop.simps) (simp add: e_def Let_def)
    next
      case (Inr r)
      from less.hyps[OF dec inv]
      show ?thesis
        using True Inr by (subst bucketLoop.simps) (simp add: e_def Let_def)
    qed
  qed
qed

lemma bucketLoop_start: "bucketLoop t m md 0 0 a \<noteq> None"
  using bucketLoop_returns[of 0 0 md t m a] by auto

lemma persistMember_returns: "persistMember env t c acc kv \<noteq> None"
  unfolding persistMember_def Let_def
  by (simp add: bucketLoop_start split: sum.splits option.splits)

lemma foldP_returns:
  assumes "\<And>s x. f s x \<noteq> None"
  shows "foldP f xs s \<noteq> None"
proof (induction xs arbitrary: s)
  case Nil
  show ?case by simp
next
  case (Cons x xs)
  from assms[of s x] Cons.IH show ?case
    by (auto split: option.splits sum.splits)
qed

lemma foldP_persistMember: "foldP (persistMember env t c) xs a \<noteq> None"
  by (rule foldP_returns) (rule persistMember_returns)

lemma buildUpdate_returns: "buildUpdate env st \<noteq> None"
  unfolding buildUpdate_def Let_def
  by (simp add: foldP_persistMember split: sum.splits option.splits)

lemma persistSync_returns: "persistSync env database st \<noteq> None"
  using buildUpdate_returns[of env st]
  by (auto simp: persistSync_def split: sum.splits option.splits)

lemma commit_troupeColl: "commit database t delta acc = Inr db' \<Longrightarrow> troupeColl db' = troupeColl database"
  by (auto simp: commit_def incrementTroupeLimits_def Let_def split: option.splits if_splits)

lemma persistSync_troupeColl:
  "persistSync env database st = Some (Inr db') \<Longrightarrow> troupeColl db' = troupeColl database"
  by (auto simp: persistSync_def split: sum.splits option.splits dest: commit_troupeColl)

lemma syncSteps_returns:
  "\<exists>r. syncSteps env seed database tr troupeId skip = Some r \<and> troupeColl (fst r) = troupeColl database"
  unfolding syncSteps_def Let_def
  by (auto simp: persistSync_returns split: sum.splits option.splits dest: persistSync_troupeColl)

lemma setSyncLock_find:
  assumes "find (\<lambda>t. t_id t = troupeId) ts = Some tr"
  shows "find (\<lambda>t. t_id t = troupeId) (fst (setSyncLock troupeId v ts)) = Some (tr\<lparr>syncLock := v\<rparr>)
       \<and> snd (setSyncLock troupeId v ts) = (if syncLock tr = v then 0 else 1)"
  using assms by (induction ts) (auto split: if_splits)

text \<open>
  C1. When the troupe's \<open>syncLock\<close> is false at the call, \<open>sync\<close> returns to its caller
  without throwing, whatever the Drive listing, the delegates, the commit and the log
  publication do (the environment and the database are arbitrary; an inner failure ends
  in \<open>r_logged\<close>), and the troupe's \<open>syncLock\<close> is false in the database it leaves.
\<close>

theorem sync_returns_and_unlocks:
  assumes "findTroupe database troupeId = Some tr" and "\<not> syncLock tr"
  shows "\<exists>r. sync env seed database troupeId skipLogPublish = Some r
           \<and> r_outcome r = Inr ()
           \<and> (\<exists>tr'. findTroupe (r_db r) troupeId = Some tr' \<and> \<not> syncLock tr')"
proof -
  let ?db1 = "database\<lparr>troupeColl := fst (setSyncLock troupeId True (troupeColl database))\<rparr>"
  from assms(1) have f1: "findTroupe ?db1 troupeId = Some (tr\<lparr>syncLock := True\<rparr>)"
    using setSyncLock_find[of troupeId "troupeColl database" tr True]
    by (simp add: findTroupe_def)
  obtain r where r: "syncSteps env seed ?db1 (tr\<lparr>syncLock := True\<rparr>) troupeId skipLogPublish = Some r"
    and tc: "troupeColl (fst r) = troupeColl ?db1"
    using syncSteps_returns by blast
  from f1 tc have f2: "find (\<lambda>t. t_id t = troupeId) (troupeColl (fst r)) = Some (tr\<lparr>syncLock := True\<rparr>)"
    by (simp add: findTroupe_def)
  note u = setSyncLock_find[OF f2, of False]
  show ?thesis
    using assms f1 r u
    by (simp add: sync_def getTroupeSchema_def Let_def findTroupe_def)
qed

theorem sync_returns_and_unlocks_witness:
  "\<exists>r. sync demoEnv 100 (demoDb 1) 1 True = Some r \<and> r_outcome r = Inr ()
       \<and> r_logged r = Some (AssertionError
            ''Invalid state -- limits exceeded for sync operation. This is unintended behavior.'')
       \<and> (\<exists>tr'. findTroupe (r_db r) 1 = Some tr' \<and> \<not> syncLock tr')"
proof -
  have f: "findTroupe (demoDb 1) 1 = Some demoTroupe" and l: "\<not> syncLock demoTroupe"
    by (simp_all add: demoDb_def demoTroupe_def findTroupe_def)
  from sync_returns_and_unlocks [OF f l, of demoEnv 100 True] obtain r where
    r: "sync demoEnv 100 (demoDb 1) 1 True = Some r" "r_outcome r = Inr ()"
       "\<exists>tr'. findTroupe (r_db r) 1 = Some tr' \<and> \<not> syncLock tr'"
    by blast
  have "map_option r_logged (sync demoEnv 100 (demoDb 1) 1 True) =
          Some (Some (AssertionError
            ''Invalid state -- limits exceeded for sync operation. This is unintended behavior.''))"
    by code_simp
  with r show ?thesis by simp
qed

text \<open>
  C2. When the troupe's \<open>syncLock\<close> is true at the call, \<open>sync\<close> throws to its caller and
  the database is the one it was given: the lock and every collection are untouched.
\<close>

theorem sync_fails_fast_when_locked:
  assumes "findTroupe database troupeId = Some tr" and "syncLock tr"
  shows "sync env seed database troupeId skipLogPublish =
           Some \<lparr>r_db = database, r_logged = None,
                 r_outcome = Inl (AssertionError ''Troupe is already being synced'')\<rparr>"
  using assms by (simp add: sync_def getTroupeSchema_def)


theorem sync_fails_fast_when_locked_witness:
  "sync demoEnv 100 ((demoDb 5)\<lparr>troupeColl := [demoTroupe\<lparr>syncLock := True\<rparr>]\<rparr>) 1 False =
     Some \<lparr>r_db = (demoDb 5)\<lparr>troupeColl := [demoTroupe\<lparr>syncLock := True\<rparr>]\<rparr>, r_logged = None,
           r_outcome = Inl (AssertionError ''Troupe is already being synced'')\<rparr>"
  using sync_fails_fast_when_locked
          [of "(demoDb 5)\<lparr>troupeColl := [demoTroupe\<lparr>syncLock := True\<rparr>]\<rparr>" 1
              "demoTroupe\<lparr>syncLock := True\<rparr>" demoEnv 100 False]
  by (simp add: demoDb_def demoTroupe_def findTroupe_def)

subsection \<open>The events collection\<close>

lemma upsert_keys: "key ` set (upsert key doc coll) = insert (key doc) (key ` set coll)"
  by (induction coll) auto

lemma fold_upsert_keys:
  "key ` set (fold (upsert key) docs coll) = key ` set docs \<union> key ` set coll"
  by (induction docs arbitrary: coll) (auto simp: upsert_keys)

lemma commit_eventColl_fold:
  assumes "commit database t delta acc = Inr db'"
  shows "eventColl db' = fold (upsert ev_id) (updateEvents acc) (eventColl database)"
  using assms
  by (auto simp: commit_def incrementTroupeLimits_def Let_def split: option.splits if_splits)

lemma commit_eventColl:
  assumes "commit database t delta acc = Inr db'"
  shows "ev_id ` set (eventColl db') = ev_id ` set (updateEvents acc) \<union> ev_id ` set (eventColl database)"
  by (simp add: commit_eventColl_fold[OF assms] fold_upsert_keys)

lemma countEvent_updateEvents:
  "countEvent acc kv = Inr acc' \<Longrightarrow> updateEvents acc' = updateEvents acc @ [ed_event (snd kv)]"
  by (auto simp: countEvent_def Let_def split: option.splits sum.splits)

lemma foldE_countEvent_updateEvents:
  "foldE countEvent kvs acc = Inr acc' \<Longrightarrow>
     updateEvents acc' = updateEvents acc @ map (\<lambda>kv. ed_event (snd kv)) kvs"
proof (induction kvs arbitrary: acc)
  case Nil
  then show ?case by simp
next
  case (Cons kv kvs)
  then show ?case by (auto split: sum.splits dest!: countEvent_updateEvents)
qed

lemma persistMember_updateEvents:
  assumes "persistMember env t c acc kv = Some (Inr acc')"
  shows "updateEvents acc' = updateEvents acc"
  by (rule persistMember_invariant[where P = "\<lambda>a. updateEvents a = updateEvents acc", OF assms])
     (simp_all add: pushBucket_def)

lemma foldP_persistMember_updateEvents:
  assumes "foldP (persistMember env t c) kvs acc = Some (Inr acc')"
  shows "updateEvents acc' = updateEvents acc"
  by (rule foldP_invariant[where P = "\<lambda>a. updateEvents a = updateEvents acc", OF assms])
     (auto dest: persistMember_updateEvents)

lemma buildUpdate_updateEvents:
  assumes "buildUpdate env st = Some (Inr acc)"
  shows "updateEvents acc = map (\<lambda>kv. ed_event (snd kv)) (eventMap st)"
  using assms
  by (auto simp: buildUpdate_def Let_def split: option.splits sum.splits if_splits
      dest!: foldE_countEvent_updateEvents foldP_persistMember_updateEvents)

lemma persistSync_eventColl:
  assumes "persistSync env database st = Some (Inr db')"
  shows "ev_id ` set (eventColl db') =
           (\<lambda>kv. ev_id (ed_event (snd kv))) ` set (eventMap st) \<union> ev_id ` set (eventColl database)"
proof -
  from assms obtain acc where b: "buildUpdate env st = Some (Inr acc)"
    by (cases "buildUpdate env st") (auto simp: persistSync_def split: sum.splits)
  with assms obtain tr :: troupe where c: "commit database (t_id tr) (incrementLimits st) acc = Inr db'"
    by (cases "s_troupe st") (auto simp: persistSync_def)
  show ?thesis
    by (simp add: commit_eventColl[OF c] buildUpdate_updateEvents[OF b] image_image)
qed

lemma syncSteps_eventColl:
  assumes "syncSteps env seed database tr troupeId skip = Some r"
  shows "ev_id ` set (eventColl database) \<subseteq> ev_id ` set (eventColl (fst r))"
proof -
  from assms consider "fst r = database"
    | st where "persistSync env database st = Some (Inr (fst r))"
    by (auto simp: syncSteps_def Let_def split: option.splits sum.splits if_splits)
  then show ?thesis
  proof cases
    case 1
    then show ?thesis by simp
  next
    case 2
    from persistSync_eventColl[OF this] show ?thesis by simp
  qed
qed

lemma sync_total: "sync env seed database troupeId skip \<noteq> None"
  using syncSteps_returns
  by (auto simp: sync_def Let_def split: sum.splits option.splits) (metis option.distinct(1))

text \<open>
  C10. A sync deletes no event document. Whenever \<open>sync\<close> returns, every id of the events
  collection before the call is an id of the collection after it, for every environment
  and outcome; and when the commit of \<open>persistSync\<close> succeeds, the ids of the events
  collection afterwards are exactly the ids it had before together with the ids of the
  events in the event map (the stored and the discovered events): the commit only upserts.
\<close>

theorem sync_never_deletes_events:
  "(\<forall>r. sync env seed database troupeId skipLogPublish = Some r \<longrightarrow>
        ev_id ` set (eventColl database) \<subseteq> ev_id ` set (eventColl (r_db r)))
   \<and> (\<forall>db'. persistSync env database st = Some (Inr db') \<longrightarrow>
        ev_id ` set (eventColl db') =
          ev_id ` set (eventColl database) \<union> (\<lambda>kv. ev_id (ed_event (snd kv))) ` set (eventMap st))"
proof (intro conjI allI impI)
  fix r
  assume s: "sync env seed database troupeId skipLogPublish = Some r"
  show "ev_id ` set (eventColl database) \<subseteq> ev_id ` set (eventColl (r_db r))"
  proof (cases "getTroupeSchema database troupeId")
    case (Inl e)
    with s show ?thesis by (auto simp: sync_def)
  next
    case (Inr schema)
    show ?thesis
    proof (cases "syncLock schema")
      case True
      with s Inr show ?thesis by (auto simp: sync_def)
    next
      case False
      let ?db1 = "database\<lparr>troupeColl := fst (setSyncLock troupeId True (troupeColl database))\<rparr>"
      show ?thesis
      proof (cases "findTroupe ?db1 troupeId")
        case None
        with s Inr False show ?thesis by (auto simp: sync_def Let_def)
      next
        case (Some tr)
        with s Inr False obtain r' where
          r': "syncSteps env seed ?db1 tr troupeId skipLogPublish = Some r'"
          and e: "eventColl (r_db r) = eventColl (fst r')"
          by (auto simp: sync_def Let_def split: option.splits if_splits)
        from syncSteps_eventColl[OF r'] e show ?thesis by simp
      qed
    qed
  qed
next
  fix db'
  assume "persistSync env database st = Some (Inr db')"
  from persistSync_eventColl[OF this]
  show "ev_id ` set (eventColl db') =
          ev_id ` set (eventColl database) \<union> (\<lambda>kv. ev_id (ed_event (snd kv))) ` set (eventMap st)"
    by auto
qed

lemma demo_commit: "\<exists>db'. persistSync demoEnv (demoDb 5) demoState = Some (Inr db')"
proof -
  have "(case persistSync demoEnv (demoDb 5) demoState of Some (Inr d) \<Rightarrow> True | _ \<Rightarrow> False)"
    by code_simp
  then show ?thesis by (auto split: option.splits sum.splits)
qed

theorem sync_never_deletes_events_witness:
  "(\<exists>r. sync demoEnv 100 (demoDb 5) 1 True = Some r
        \<and> ev_id ` set (eventColl (demoDb 5)) \<subseteq> ev_id ` set (eventColl (r_db r)))
   \<and> (\<exists>db'. persistSync demoEnv (demoDb 5) demoState = Some (Inr db')
        \<and> ev_id ` set (eventColl db') = {7})"
proof -
  obtain r where r: "sync demoEnv 100 (demoDb 5) 1 True = Some r"
    using sync_total[of demoEnv 100 "demoDb 5" 1 True] by auto
  from demo_commit obtain db' where p: "persistSync demoEnv (demoDb 5) demoState = Some (Inr db')" ..
  note inst = sync_never_deletes_events[of demoEnv 100 "demoDb 5" 1 True demoState]
  from inst r have A: "ev_id ` set (eventColl (demoDb 5)) \<subseteq> ev_id ` set (eventColl (r_db r))"
    by blast
  from inst p have "ev_id ` set (eventColl db') =
      ev_id ` set (eventColl (demoDb 5)) \<union> (\<lambda>kv. ev_id (ed_event (snd kv))) ` set (eventMap demoState)"
    by blast
  then have B: "ev_id ` set (eventColl db') = {7}"
    by (simp add: demoDb_def demoState_def demoEvent_def)
  from r A p B show ?thesis by blast
qed

subsection \<open>The dashboard statistics\<close>

text \<open>\<^verbatim>\<open>totalAttendees\<close> starts undefined, so every \<^verbatim>\<open>+= 1\<close> leaves it \<^verbatim>\<open>NaN\<close>.\<close>

definition noNumber :: "jsnum \<Rightarrow> bool" where
  "noNumber x = (x = Undefined \<or> x = NaN)"

lemma noNumber_js_inc: "noNumber x \<Longrightarrow> noNumber (js_inc x)"
  by (auto simp: noNumber_def)

lemma noNumber_not_gt0: "noNumber x \<Longrightarrow> \<not> js_gt0 x"
  by (auto simp: noNumber_def)

text \<open>While the loops count: the tables hold counts, and \<^verbatim>\<open>totalAttendees\<close> is no number.\<close>

definition counting :: "dashboard_update \<Rightarrow> oid \<Rightarrow> bool" where
  "counting du typeId =
     ((\<exists>n k. statsOf du typeId =
         Some (Num (of_nat n), Num (of_nat k), Num (of_nat k), Num (of_nat k), Num (of_nat n)))
      \<and> noNumber (totalAttendees du))"

definition finished :: "dashboard_update \<Rightarrow> oid \<Rightarrow> bool" where
  "finished du typeId =
     ((\<exists>n k. statsOf du typeId =
         Some (Num (of_nat n), Num (of_nat k),
               (if 0 < n then js_round (js_div (Num (of_nat k)) (Num (of_nat n))) else Num 0),
               Num 0,
               (if 0 < totalEvents du then js_div (Num (of_nat n)) (Num (of_int (totalEvents du)))
                else Num 0)))
      \<and> noNumber (totalAttendees du))"

lemma statsOf_Some_iff:
  "statsOf du typeId = Some (a, b, c, d, e) \<longleftrightarrow>
     (\<exists>te ta av ap ep.
        map_of (totalEventsByEventType du) typeId = Some te \<and>
        map_of (totalAttendeesByEventType du) typeId = Some ta \<and>
        map_of (avgAttendeesByEventType du) typeId = Some av \<and>
        map_of (attendeePercentageByEventType du) typeId = Some ap \<and>
        map_of (eventPercentageByEventType du) typeId = Some ep \<and>
        s_value te = a \<and> s_value ta = b \<and> s_value av = c \<and> ps_value ap = d \<and> ps_value ep = e)"
  by (auto simp: statsOf_def split: option.splits)

lemma statsOf_cong:
  assumes "map_of (totalEventsByEventType du') typeId = map_of (totalEventsByEventType du) typeId"
    and "map_of (totalAttendeesByEventType du') typeId = map_of (totalAttendeesByEventType du) typeId"
    and "map_of (avgAttendeesByEventType du') typeId = map_of (avgAttendeesByEventType du) typeId"
    and "map_of (attendeePercentageByEventType du') typeId = map_of (attendeePercentageByEventType du) typeId"
    and "map_of (eventPercentageByEventType du') typeId = map_of (eventPercentageByEventType du) typeId"
  shows "statsOf du' typeId = statsOf du typeId"
  using assms by (simp add: statsOf_def cong: option.case_cong)

lemma initStats_counting:
  assumes "counting du typeId \<or> (et_id et = typeId \<and> noNumber (totalAttendees du))"
  shows "counting (initStats du et) typeId"
proof (cases "et_id et = typeId")
  case True
  have "statsOf (initStats du et) typeId
          = Some (Num (of_nat 0), Num (of_nat 0), Num (of_nat 0), Num (of_nat 0), Num (of_nat 0))"
    using True by (simp add: statsOf_Some_iff initStats_def Let_def update_conv')
  moreover have "noNumber (totalAttendees (initStats du et))"
    using assms by (auto simp: initStats_def Let_def counting_def)
  ultimately show ?thesis unfolding counting_def by blast
next
  case False
  with assms have c: "counting du typeId" by simp
  have "statsOf (initStats du et) typeId = statsOf du typeId"
    using False by (intro statsOf_cong) (simp_all add: initStats_def Let_def update_conv')
  moreover have "totalAttendees (initStats du et) = totalAttendees du"
    by (simp add: initStats_def Let_def)
  ultimately show ?thesis using c by (simp add: counting_def)
qed

lemma initStats_totalAttendees: "totalAttendees (initStats du et) = totalAttendees du"
  by (simp add: initStats_def Let_def)

lemma fold_initStats_totalAttendees:
  "totalAttendees (fold (\<lambda>et du. initStats du et) ets du) = totalAttendees du"
  by (induction ets arbitrary: du) (simp_all add: initStats_totalAttendees)

lemma fold_initStats_counting:
  assumes "counting du typeId \<or> (typeId \<in> et_id ` set ets \<and> noNumber (totalAttendees du))"
  shows "counting (fold (\<lambda>et du. initStats du et) ets du) typeId"
  using assms
proof (induction ets arbitrary: du)
  case Nil
  then show ?case by simp
next
  case (Cons et ets)
  have "counting (initStats du et) typeId
        \<or> (typeId \<in> et_id ` set ets \<and> noNumber (totalAttendees (initStats du et)))"
  proof (cases "counting du typeId \<or> et_id et = typeId")
    case True
    with Cons.prems have "counting (initStats du et) typeId"
      by (intro initStats_counting) (auto simp: counting_def)
    then show ?thesis ..
  next
    case False
    with Cons.prems show ?thesis by (auto simp: initStats_totalAttendees)
  qed
  from Cons.IH[OF this] show ?case by simp
qed

lemma bumpStat_map_of:
  assumes "bumpStat k m = Inr m'"
  shows "\<exists>s. map_of m k = Some s \<and> map_of m' = (map_of m)(k \<mapsto> s\<lparr>s_value := js_inc (s_value s)\<rparr>)"
  using assms by (auto simp: bumpStat_def update_conv' split: option.splits)

lemma bumpPStat_map_of:
  assumes "bumpPStat k m = Inr m'"
  shows "\<exists>s. map_of m k = Some s \<and> map_of m' = (map_of m)(k \<mapsto> s\<lparr>ps_value := js_inc (ps_value s)\<rparr>)"
  using assms by (auto simp: bumpPStat_def update_conv' split: option.splits)

lemma ex_count_Suc: "\<exists>m. rat_of_nat n + 1 = rat_of_nat m"
  by (rule exI[of _ "Suc n"]) simp

lemma countEvent_counting:
  assumes "countEvent acc kv = Inr acc'" and "counting (dashboardUpdate acc) typeId"
  shows "counting (dashboardUpdate acc') typeId"
proof (cases "eventTypeId (ed_event (snd kv))")
  case None
  with assms(1) have "dashboardUpdate acc' = (dashboardUpdate acc)
                 \<lparr>totalEvents := totalEvents (dashboardUpdate acc) + 1\<rparr>"
    by (auto simp: countEvent_def Let_def)
  moreover have "statsOf ((dashboardUpdate acc)\<lparr>totalEvents := totalEvents (dashboardUpdate acc) + 1\<rparr>) typeId
                 = statsOf (dashboardUpdate acc) typeId"
    by (intro statsOf_cong) simp_all
  ultimately show ?thesis using assms(2) by (simp add: counting_def)
next
  case (Some tid)
  with assms(1) obtain te ep where
    te: "bumpStat tid (totalEventsByEventType (dashboardUpdate acc)) = Inr te"
    and ep: "bumpPStat tid (eventPercentageByEventType (dashboardUpdate acc)) = Inr ep"
    and acc': "dashboardUpdate acc' = (dashboardUpdate acc)
                 \<lparr>totalEvents := totalEvents (dashboardUpdate acc) + 1,
                  totalEventsByEventType := te, eventPercentageByEventType := ep\<rparr>"
    by (auto simp: countEvent_def Let_def split: sum.splits)
  from bumpStat_map_of[OF te] bumpPStat_map_of[OF ep] assms(2)
  show ?thesis
    unfolding acc' counting_def statsOf_Some_iff
    by (cases "tid = typeId") (auto simp: ex_count_Suc)
qed

lemma addAttended_counting:
  assumes "addAttended r a = Inr r'" and "counting (snd r) typeId"
  shows "counting (snd r') typeId"
proof (cases "a_typeId a")
  case None
  with assms(1) have r': "snd r' = (snd r)\<lparr>totalAttendees := js_inc (totalAttendees (snd r))\<rparr>"
    by (auto simp: addAttended_def Let_def)
  have "statsOf (snd r') typeId = statsOf (snd r) typeId"
    unfolding r' by (intro statsOf_cong) simp_all
  then show ?thesis
    using assms(2) by (auto simp: counting_def r' noNumber_js_inc)
next
  case (Some tid)
  with assms(1) obtain ta av ap where
    ta: "bumpStat tid (totalAttendeesByEventType (snd r)) = Inr ta"
    and av: "bumpStat tid (avgAttendeesByEventType (snd r)) = Inr av"
    and ap: "bumpPStat tid (attendeePercentageByEventType (snd r)) = Inr ap"
    and r': "snd r' = (snd r)\<lparr>totalAttendeesByEventType := ta, avgAttendeesByEventType := av,
                              attendeePercentageByEventType := ap,
                              totalAttendees := js_inc (totalAttendees (snd r))\<rparr>"
    by (auto simp: addAttended_def Let_def split: sum.splits)
  from bumpStat_map_of[OF ta] bumpStat_map_of[OF av] bumpPStat_map_of[OF ap] assms(2)
  show ?thesis
    unfolding r' counting_def statsOf_Some_iff
    by (cases "tid = typeId") (auto simp: ex_count_Suc noNumber_js_inc)
qed

lemma foldE_addAttended_counting:
  assumes "foldE addAttended xs r = Inr r'" and "counting (snd r) typeId"
  shows "counting (snd r') typeId"
  by (rule foldE_invariant[where P = "\<lambda>r. counting (snd r) typeId", OF assms])
     (rule addAttended_counting)

lemma addBirthday_counting:
  assumes "addBirthday env c m du = Inr du'" and "counting du typeId"
  shows "counting du' typeId"
proof -
  from assms(1) have "du' = du \<or> (\<exists>u. du' = du\<lparr>upcomingBirthdays := u\<rparr>)"
    by (auto simp: addBirthday_def split: option.splits if_splits)
  then have "statsOf du' typeId = statsOf du typeId \<and> totalAttendees du' = totalAttendees du"
    by (auto intro!: statsOf_cong)
  with assms(2) show ?thesis by (simp add: counting_def)
qed

lemma counting_cong:
  assumes "counting du typeId"
    and "totalAttendeesByEventType du' = totalAttendeesByEventType du"
    and "totalEventsByEventType du' = totalEventsByEventType du"
    and "avgAttendeesByEventType du' = avgAttendeesByEventType du"
    and "attendeePercentageByEventType du' = attendeePercentageByEventType du"
    and "eventPercentageByEventType du' = eventPercentageByEventType du"
    and "totalAttendees du' = totalAttendees du"
  shows "counting du' typeId"
proof -
  have "statsOf du' typeId = statsOf du typeId"
    by (intro statsOf_cong) (simp_all add: assms)
  with assms(1,7) show ?thesis by (simp add: counting_def)
qed

lemma persistMember_counting:
  assumes "persistMember env t c acc kv = Some (Inr acc')"
    and "counting (dashboardUpdate acc) typeId"
  shows "counting (dashboardUpdate acc') typeId"
proof (rule persistMember_invariant[where P = "\<lambda>a. counting (dashboardUpdate a) typeId", OF assms])
  fix a :: persist_acc and du
  assume "counting (dashboardUpdate a) typeId"
    and "addBirthday env c (md_member (snd kv)) (dashboardUpdate a) = Inr du"
  then have "counting du typeId" by (rule addBirthday_counting[rotated])
  then have "counting (du\<lparr>totalMembers := totalMembers du + 1\<rparr>) typeId"
    by (rule counting_cong) simp_all
  then show "counting (dashboardUpdate
        (a\<lparr>updateAudience := updateAudience a @ [md_member (snd kv)],
           dashboardUpdate := du\<lparr>totalMembers := totalMembers du + 1\<rparr>\<rparr>)) typeId"
    by simp
next
  fix pg and a :: persist_acc and r xs
  assume "counting (dashboardUpdate a) typeId"
    and "foldE addAttended xs ([], dashboardUpdate a) = Inr r"
  then have "counting (snd r) typeId"
    using foldE_addAttended_counting[of xs "([], dashboardUpdate a)" r typeId] by simp
  then show "counting (dashboardUpdate (pushBucket t (m_id (md_member (snd kv))) (snd kv) pg r a)) typeId"
    by (simp add: pushBucket_def)
qed simp_all

lemma foldP_persistMember_counting:
  assumes "foldP (persistMember env t c) kvs acc = Some (Inr acc')"
    and "counting (dashboardUpdate acc) typeId"
  shows "counting (dashboardUpdate acc') typeId"
  by (rule foldP_invariant[where P = "\<lambda>a. counting (dashboardUpdate a) typeId", OF assms])
     (rule persistMember_counting)

lemma foldE_countEvent_counting:
  assumes "foldE countEvent kvs acc = Inr acc'"
    and "counting (dashboardUpdate acc) typeId"
  shows "counting (dashboardUpdate acc') typeId"
  by (rule foldE_invariant[where P = "\<lambda>a. counting (dashboardUpdate a) typeId", OF assms])
     (rule countEvent_counting)

lemma finishStats_result:
  assumes "finishStats du et = Inr du'"
  shows "\<exists>te ta av ap ep.
           map_of (totalEventsByEventType du) (et_id et) = Some te \<and>
           map_of (totalAttendeesByEventType du) (et_id et) = Some ta \<and>
           map_of (avgAttendeesByEventType du) (et_id et) = Some av \<and>
           map_of (attendeePercentageByEventType du) (et_id et) = Some ap \<and>
           map_of (eventPercentageByEventType du) (et_id et) = Some ep \<and>
           du' = du\<lparr>avgAttendeesByEventType :=
                      AList.update (et_id et)
                        (av\<lparr>s_value := (if js_gt0 (s_value te)
                                         then js_round (js_div (s_value av) (s_value te))
                                         else Num 0)\<rparr>)
                        (avgAttendeesByEventType du),
                    attendeePercentageByEventType :=
                      AList.update (et_id et)
                        (ap\<lparr>ps_value := (if js_gt0 (totalAttendees du)
                                          then js_div (s_value ta) (totalAttendees du)
                                          else Num 0)\<rparr>)
                        (attendeePercentageByEventType du),
                    eventPercentageByEventType :=
                      AList.update (et_id et)
                        (ep\<lparr>ps_value := (if 0 < totalEvents du
                                          then js_div (s_value te) (Num (of_int (totalEvents du)))
                                          else Num 0)\<rparr>)
                        (eventPercentageByEventType du)\<rparr>"
  using assms
  by (simp add: finishStats_def Let_def split: option.splits split del: if_split)

lemma finishStats_self:
  assumes "finishStats du et = Inr du'" and "counting du (et_id et)"
  shows "finished du' (et_id et)"
proof -
  from finishStats_result[OF assms(1)] obtain te ta av ap ep where
    l: "map_of (totalEventsByEventType du) (et_id et) = Some te"
       "map_of (totalAttendeesByEventType du) (et_id et) = Some ta"
       "map_of (avgAttendeesByEventType du) (et_id et) = Some av"
       "map_of (attendeePercentageByEventType du) (et_id et) = Some ap"
       "map_of (eventPercentageByEventType du) (et_id et) = Some ep"
    and du': "du' = du\<lparr>avgAttendeesByEventType :=
                      AList.update (et_id et)
                        (av\<lparr>s_value := (if js_gt0 (s_value te)
                                         then js_round (js_div (s_value av) (s_value te))
                                         else Num 0)\<rparr>)
                        (avgAttendeesByEventType du),
                    attendeePercentageByEventType :=
                      AList.update (et_id et)
                        (ap\<lparr>ps_value := (if js_gt0 (totalAttendees du)
                                          then js_div (s_value ta) (totalAttendees du)
                                          else Num 0)\<rparr>)
                        (attendeePercentageByEventType du),
                    eventPercentageByEventType :=
                      AList.update (et_id et)
                        (ep\<lparr>ps_value := (if 0 < totalEvents du
                                          then js_div (s_value te) (Num (of_int (totalEvents du)))
                                          else Num 0)\<rparr>)
                        (eventPercentageByEventType du)\<rparr>"
    by blast
  from assms(2) l obtain n k where
    v: "s_value te = Num (of_nat n)" "s_value ta = Num (of_nat k)" "s_value av = Num (of_nat k)"
    and nn: "noNumber (totalAttendees du)"
    by (auto simp: counting_def statsOf_Some_iff)
  have "statsOf du' (et_id et) =
          Some (Num (of_nat n), Num (of_nat k),
               (if 0 < n then js_round (js_div (Num (of_nat k)) (Num (of_nat n))) else Num 0),
               Num 0,
               (if 0 < totalEvents du' then js_div (Num (of_nat n)) (Num (of_int (totalEvents du')))
                else Num 0))"
    unfolding statsOf_Some_iff du'
    using l v noNumber_not_gt0[OF nn] by (simp add: update_conv')
  moreover have "noNumber (totalAttendees du')"
    using nn by (simp add: du')
  ultimately show ?thesis unfolding finished_def by blast
qed

lemma finishStats_other:
  assumes "finishStats du et = Inr du'" and "et_id et \<noteq> typeId"
  shows "statsOf du' typeId = statsOf du typeId" and "totalAttendees du' = totalAttendees du"
    and "totalEvents du' = totalEvents du"
proof -
  from finishStats_result[OF assms(1)] obtain av ap ep where
    du': "du' = du\<lparr>avgAttendeesByEventType := AList.update (et_id et) av (avgAttendeesByEventType du),
                    attendeePercentageByEventType :=
                      AList.update (et_id et) ap (attendeePercentageByEventType du),
                    eventPercentageByEventType :=
                      AList.update (et_id et) ep (eventPercentageByEventType du)\<rparr>"
    by blast
  show "statsOf du' typeId = statsOf du typeId"
    unfolding du' using assms(2) by (intro statsOf_cong) (simp_all add: update_conv')
  show "totalAttendees du' = totalAttendees du" "totalEvents du' = totalEvents du"
    by (simp_all add: du')
qed

lemma foldE_finishStats:
  assumes "foldE finishStats ets du = Inr du'" and "distinct (map et_id ets)"
  shows "(typeId \<in> et_id ` set ets \<longrightarrow> counting du typeId \<longrightarrow> finished du' typeId)
       \<and> (typeId \<notin> et_id ` set ets \<longrightarrow>
            (counting du typeId \<longrightarrow> counting du' typeId)
          \<and> (finished du typeId \<longrightarrow> finished du' typeId))"
  using assms
proof (induction ets arbitrary: du)
  case Nil
  then show ?case by simp
next
  case (Cons et ets)
  from Cons.prems(1) obtain d1 where
    s: "finishStats du et = Inr d1" and r: "foldE finishStats ets d1 = Inr du'"
    by (auto split: sum.splits)
  from Cons.prems(2) have d: "distinct (map et_id ets)" and n: "et_id et \<notin> et_id ` set ets"
    by auto
  note IH = Cons.IH[OF r d]
  show ?case
  proof (cases "et_id et = typeId")
    case True
    with finishStats_self[OF s] IH n show ?thesis by auto
  next
    case False
    from finishStats_other[OF s False]
    have "counting d1 typeId = counting du typeId" "finished d1 typeId = finished du typeId"
      by (simp_all add: counting_def finished_def)
    with IH False show ?thesis by auto
  qed
qed

lemma buildUpdate_finished:
  assumes b: "buildUpdate env st = Some (Inr acc)"
    and tr: "s_troupe st = Some tr"
    and dist: "distinct (map et_id (eventTypes tr))"
    and et: "et \<in> set (eventTypes tr)"
  shows "finished (dashboardUpdate acc) (et_id et)"
proof -
  from b tr obtain dash acc1 acc2 du c where
    dash: "s_dashboard st = Some dash"
    and e: "foldE countEvent (eventMap st)
              \<lparr>dashboardUpdate = fold (\<lambda>eventType du. initStats du eventType) (eventTypes tr)
                                    (initDashboardUpdate env tr dash),
               updateEvents = [], updateAudience = [], membersToDelete = [],
               updateEventsAttended = [], eventsAttendedToDelete = [],
               pa_nextOid = nextOid st\<rparr> = Inr acc1"
    and m: "foldP (persistMember env (t_id tr) c) (attendeeMap st) acc1 = Some (Inr acc2)"
    and f: "foldE finishStats (eventTypes tr) (dashboardUpdate acc2) = Inr du"
    and a: "acc = acc2\<lparr>dashboardUpdate := du\<rparr>"
    by (auto simp: buildUpdate_def Let_def split: option.splits sum.splits if_splits)
  have "noNumber (totalAttendees (initDashboardUpdate env tr dash))"
    by (simp add: initDashboardUpdate_def noNumber_def)
  with et have "counting (fold (\<lambda>eventType du. initStats du eventType) (eventTypes tr)
                            (initDashboardUpdate env tr dash)) (et_id et)"
    by (intro fold_initStats_counting) auto
  with e have "counting (dashboardUpdate acc1) (et_id et)"
    using foldE_countEvent_counting by fastforce
  with m have "counting (dashboardUpdate acc2) (et_id et)"
    by (rule foldP_persistMember_counting)
  with foldE_finishStats[OF f dist, of "et_id et"] et have "finished du (et_id et)"
    by auto
  then show ?thesis by (simp add: a)
qed

lemma find_setDashboard:
  "\<exists>d. find (\<lambda>d. d_troupeId d = t) (setDashboard i t du ds) = Some d
       \<and> (d_fields d = du \<or> (\<exists>old. d_fields d = setFields du old))"
  by (induction ds) auto

lemma statsOf_setFields: "statsOf (setFields du old) typeId = statsOf du typeId"
  by (intro statsOf_cong) (simp_all add: setFields_def)

lemma commit_dashboardColl:
  assumes "commit database t delta acc = Inr db'"
  shows "dashboardColl db' = setDashboard (pa_nextOid acc) t (dashboardUpdate acc) (dashboardColl database)"
  using assms
  by (auto simp: commit_def incrementTroupeLimits_def Let_def split: option.splits if_splits)

lemma persistSync_dashboard:
  assumes "persistSync env database st = Some (Inr db')" and "s_troupe st = Some tr"
  shows "\<exists>acc d. buildUpdate env st = Some (Inr acc)
           \<and> find (\<lambda>d. d_troupeId d = t_id tr) (dashboardColl db') = Some d
           \<and> (\<forall>typeId. statsOf (d_fields d) typeId = statsOf (dashboardUpdate acc) typeId)"
proof -
  from assms obtain acc where b: "buildUpdate env st = Some (Inr acc)"
    by (cases "buildUpdate env st") (auto simp: persistSync_def split: sum.splits)
  with assms have c: "commit database (t_id tr) (incrementLimits st) acc = Inr db'"
    by (auto simp: persistSync_def)
  from find_setDashboard[of "t_id tr" "pa_nextOid acc" "dashboardUpdate acc" "dashboardColl database"]
  obtain d where d: "find (\<lambda>d. d_troupeId d = t_id tr) (dashboardColl db') = Some d"
    and f: "d_fields d = dashboardUpdate acc \<or> (\<exists>old. d_fields d = setFields (dashboardUpdate acc) old)"
    unfolding commit_dashboardColl[OF c] by blast
  from f have "statsOf (d_fields d) typeId = statsOf (dashboardUpdate acc) typeId" for typeId
    by (auto simp: statsOf_setFields)
  with b d show ?thesis by blast
qed

text \<open>
  C9. After a commit that succeeds, take the dashboard of the troupe and an event type of
  the troupe (the event types having distinct ids). Its events and attendees totals are
  counts \<open>n\<close> and \<open>k\<close>. With \<open>n = 0\<close> the average attendees, the attendee share and the
  event share are all \<open>0\<close>. With \<open>n > 0\<close> the average is \<^verbatim>\<open>Math.round\<close> of \<open>k / n\<close>. In both
  cases the three values are finite numbers: no division by zero has produced an
  infinity or \<^verbatim>\<open>NaN\<close>.
\<close>

theorem dashboard_statistics:
  assumes "persistSync env database st = Some (Inr db')"
    and "s_troupe st = Some tr"
    and "distinct (map et_id (eventTypes tr))"
    and "et \<in> set (eventTypes tr)"
  shows "\<exists>d n k av ap ep.
           find (\<lambda>d. d_troupeId d = t_id tr) (dashboardColl db') = Some d
         \<and> statsOf (d_fields d) (et_id et) = Some (Num (of_nat n), Num (of_nat k), av, ap, ep)
         \<and> (n = 0 \<longrightarrow> av = Num 0 \<and> ap = Num 0 \<and> ep = Num 0)
         \<and> (0 < n \<longrightarrow> av = js_round (js_div (Num (of_nat k)) (Num (of_nat n)))
                      \<and> av = Num (of_int \<lfloor>of_nat k / of_nat n + 1 / 2 :: rat\<rfloor>))
         \<and> (\<exists>a b c. av = Num a \<and> ap = Num b \<and> ep = Num c)"
proof -
  from persistSync_dashboard[OF assms(1,2)] obtain acc d where
    b: "buildUpdate env st = Some (Inr acc)"
    and d: "find (\<lambda>d. d_troupeId d = t_id tr) (dashboardColl db') = Some d"
    and e: "statsOf (d_fields d) (et_id et) = statsOf (dashboardUpdate acc) (et_id et)"
    by blast
  from buildUpdate_finished[OF b assms(2-4)] obtain n k where
    s: "statsOf (dashboardUpdate acc) (et_id et) =
         Some (Num (of_nat n), Num (of_nat k),
               (if 0 < n then js_round (js_div (Num (of_nat k)) (Num (of_nat n))) else Num 0),
               Num 0,
               (if 0 < totalEvents (dashboardUpdate acc)
                then js_div (Num (of_nat n)) (Num (of_int (totalEvents (dashboardUpdate acc))))
                else Num 0))"
    by (auto simp: finished_def)
  let ?av = "if 0 < n then js_round (js_div (Num (of_nat k)) (Num (of_nat n))) else Num 0"
  let ?ep = "if 0 < totalEvents (dashboardUpdate acc)
             then js_div (Num (of_nat n)) (Num (of_int (totalEvents (dashboardUpdate acc))))
             else Num 0"
  have zero: "n = 0 \<longrightarrow> ?av = Num 0 \<and> ?ep = Num 0"
    by simp
  have pos: "0 < n \<longrightarrow> ?av = js_round (js_div (Num (of_nat k)) (Num (of_nat n)))
                      \<and> ?av = Num (of_int \<lfloor>of_nat k / of_nat n + 1 / 2 :: rat\<rfloor>)"
    by simp
  have fin_av: "\<exists>a. ?av = Num a"
    by (cases "0 < n") simp_all
  have fin_ep: "\<exists>c. ?ep = Num c"
    by (cases "0 < totalEvents (dashboardUpdate acc)") simp_all
  from d s[folded e] zero pos fin_av fin_ep show ?thesis
    by blast
qed

theorem dashboard_statistics_witness:
  "\<exists>db' d n k av ap ep.
      persistSync demoEnv (demoDb 5) demoState = Some (Inr db')
    \<and> find (\<lambda>d. d_troupeId d = 1) (dashboardColl db') = Some d
    \<and> statsOf (d_fields d) 11 = Some (Num (of_nat n), Num (of_nat k), av, ap, ep)
    \<and> (\<exists>a b c. av = Num a \<and> ap = Num b \<and> ep = Num c)"
proof -
  from demo_commit obtain db' where p: "persistSync demoEnv (demoDb 5) demoState = Some (Inr db')" ..
  have t: "s_troupe demoState = Some demoTroupe"
    by (simp add: demoState_def demoStart_def initialState_def)
  have d: "distinct (map et_id (eventTypes demoTroupe))"
    by (simp add: demoTroupe_def)
  have e: "\<lparr>et_id = 11, et_title = ''U'', et_value = 2, sourceFolderUris = []\<rparr> \<in> set (eventTypes demoTroupe)"
    by (simp add: demoTroupe_def)
  have i: "t_id demoTroupe = 1" by (simp add: demoTroupe_def)
  from dashboard_statistics[OF p t d e] p show ?thesis
    unfolding i by simp blast
qed

subsection \<open>Where the code departs from the specification\<close>

text \<open>
  C3. The quota test of line 242 compares the remaining quota with the local delta, which
  starts at \<open>0\<close> and only goes down. With one new event left, the never-seen forms \<open>b\<close>
  and \<open>c\<close> both become events and the delta ends at \<open>-2\<close>: the second is not ignored.
  With none left at the start no event is created, and the known event of \<open>a\<close> still
  gets its event type.
\<close>

theorem quota_test_admits_events_beyond_quota:
  "map_sum id (\<lambda>st. (map (\<lambda>kv. (fst kv, ed_fromColl (snd kv))) (eventMap st),
                       eventsLeft (incrementLimits st)))
      (discoverEvents demoEnv (demoDb 1) (demoStart 1))
     = Inr ([(''a'', True), (''b'', False), (''c'', False)], - 2)
   \<and> map_sum id (\<lambda>st. (map (\<lambda>kv. (fst kv, ed_fromColl (snd kv), eventTypeId (ed_event (snd kv))))
                            (eventMap st),
                       eventsLeft (incrementLimits st)))
      (discoverEvents demoEnv (demoDb 0) (demoStart 0))
     = Inr ([(''a'', True, Some 10)], 0)"
  by code_simp

text \<open>
  C8. The folder branch of the expansion loop (lines 200-222) claims and pushes
  \<^verbatim>\<open>folderId\<close>, the folder being expanded, never the child. The sub-folder \<open>g\<close> of \<open>f\<close>
  is not owned, not pushed and not expanded, with five new folders left in the quota:
  \<open>f\<close> is the only folder discovered and the form \<open>x\<close> in \<open>g\<close> is no event.
\<close>

theorem child_folder_is_not_expanded:
  "map_sum id (\<lambda>dst. (discoveredFolders (fst dst), foldersToExplore (fst dst),
                        folderToEventTypeMap (fst dst),
                        sourceFolderUrisLeft (incrementLimits (snd dst))))
      (case seedFolders demoEnv (eventTypes demoTroupe) of
         Inl e \<Rightarrow> Inl e
       | Inr d \<Rightarrow> exploreFolders demoEnv 1 (d, demoStart 5))
     = Inr ([''f''], [], [(''f'', 0)], 0)
   \<and> map_sum id (\<lambda>st. map fst (eventMap st)) (discoverEvents demoEnv (demoDb 5) (demoStart 5))
     = Inr [''a'', ''b'', ''c'']"
  by code_simp

text \<open>
  C7. The audience pass on the stored member \<open>m1\<close> alone (the event map is empty, no
  delegate runs). The point total is reset to \<open>0\<close>; the property \<open>Email\<close>, whose override
  flag is not set, keeps its stored value (lines 319-322 copy \<^verbatim>\<open>member.properties[prop]?.value\<close>).
\<close>

theorem initialization_keeps_unflagged_values:
  "map_sum id (\<lambda>st. map (\<lambda>kv. (fst kv, properties (md_member (snd kv)), points (md_member (snd kv))))
                        (attendeeMap st))
      (discoverAndRefreshAudience demoEnv (demoDb 5) (demoStart 5))
     = Inr [(''m1'',
             [(''Member ID'', \<lparr>p_value = Some (PStr ''m1''), p_override = False\<rparr>),
              (''Email'', \<lparr>p_value = Some (PStr ''x@y''), p_override = False\<rparr>),
              (''Birthday'', \<lparr>p_value = None, p_override = False\<rparr>)],
             [(''Total'', 0)])]"
  by code_simp

text \<open>
  C4. The forms delegate creates the member \<open>m2\<close> (id 102) with no value for the required
  property \<open>Email\<close>. The audience pass flags it for deletion. In \<open>persistSync\<close> the test
  of line 451 is \<^verbatim>\<open>delete && fromColl\<close>, so the member takes the update path: after the
  sync it is in the audience collection, with the bucket 103. When it is the stored
  member 20 that lacks the email, that member and its bucket 30 are removed (third part).
\<close>

theorem new_member_without_required_property_is_written:
  "map_sum id (\<lambda>st. map (\<lambda>kv. (fst kv, m_id (md_member (snd kv)), md_delete (snd kv),
                                  md_fromColl (snd kv))) (attendeeMap st))
      (case discoverEvents demoEnv (demoDb 5) (demoStart 5) of
         Inl e \<Rightarrow> Inl e
       | Inr st \<Rightarrow> discoverAndRefreshAudience demoEnv (demoDb 5) st)
     = Inr [(''m1'', 20, False, True), (''m2'', 102, True, False)]
   \<and> map_option (\<lambda>r. (r_logged r, r_outcome r,
                        map (\<lambda>m. (m_id m, map_of (properties m) ''Email'')) (audienceColl (r_db r)),
                        map (\<lambda>b. (b_id b, b_memberId b)) (eventsAttendedColl (r_db r))))
      (sync demoEnv 100 (demoDb 5) 1 True)
     = Some (None, Inr (),
             [(20, Some \<lparr>p_value = Some (PStr ''x@y''), p_override = False\<rparr>),
              (102, Some \<lparr>p_value = None, p_override = False\<rparr>)],
             [(30, 20), (103, 102)])
   \<and> map_option (\<lambda>r. (r_logged r, r_outcome r, map m_id (audienceColl (r_db r)),
                        map (\<lambda>b. (b_id b, b_memberId b)) (eventsAttendedColl (r_db r))))
      (sync demoEnv 100 demoDbNoEmail 1 True)
     = Some (None, Inr (), [102], [(103, 102)])"
  by code_simp

text \<open>
  C6. The stored member 20 has the stored bucket 30 holding the event 7 and accumulates
  two records, for the events 7 and 100. The commit writes one bucket for the member,
  the stored bucket 30, and its events are still those stored: the record of event 100
  is in no bucket of the member. (The bucket 103 of the new member 102 is created by the
  sync and holds its record.)
\<close>

theorem reused_bucket_keeps_stored_events:
  "map_sum id (\<lambda>st. map (\<lambda>kv. (m_id (md_member (snd kv)),
                                  map a_eventId (eventsAttended (snd kv)),
                                  map (\<lambda>b. (b_id b, map fst (b_events b))) (eventsAttendedDocs (snd kv))))
                        (attendeeMap st))
      (case discoverEvents demoEnv (demoDb 5) (demoStart 5) of
         Inl e \<Rightarrow> Inl e
       | Inr st \<Rightarrow> discoverAndRefreshAudience demoEnv (demoDb 5) st)
     = Inr [(20, [7, 100], [(30, [7])]), (102, [100], [])]
   \<and> map_option (\<lambda>r. (r_logged r, r_outcome r,
                        map (\<lambda>b. (b_id b, b_memberId b, page b, map fst (b_events b)))
                          (eventsAttendedColl (r_db r))))
      (sync demoEnv 100 (demoDb 5) 1 True)
     = Some (None, Inr (), [(30, 20, 0, [7]), (103, 102, 0, [100])])"
  by code_simp

end
